theory Spec2Isabelle
  imports Main "HOL-Library.Word"
begin

unbundle bit_operations_syntax

section \<open>DallasEPROM: a page protocol over the 1-Wire bus\<close>

text \<open>
  A shallow embedding of \<^verbatim>\<open>DallasEPROM.cpp\<close> and \<^verbatim>\<open>DallasEPROM.h\<close>.

  Integer types follow the AVR targets of the Arduino toolchain the library is written
  for: \<^verbatim>\<open>char\<close> is signed, \<^verbatim>\<open>unsigned int\<close> has 16 bits, \<^verbatim>\<open>byte\<close> and
  \<^verbatim>\<open>uint8_t\<close> have 8. A value of type \<^verbatim>\<open>int\<close> (a page number, a status code, a
  table index) is an \<^typ>\<open>int\<close>; each conversion to a narrower unsigned type is written
  out as \<^term>\<open>word_of_int\<close> or \<^term>\<open>ucast\<close>, which reduce modulo the width as the
  C++ conversions do. The values that the code stores in \<^verbatim>\<open>_curModelIndex\<close> are \<open>-1\<close>
  and indices of the table, and for the pages of the table \<^verbatim>\<open>page * 32\<close> stays far below
  \<open>2^15\<close>: no arithmetic on \<^verbatim>\<open>int\<close> overflows there.

  A buffer (\<^verbatim>\<open>uint8_t*\<close>) is the list of the bytes from the pointer on. The header asks
  for 32 bytes behind each page buffer; \<^verbatim>\<open>data[i]\<close> is \<^term>\<open>data ! i\<close>.
\<close>

type_synonym byte = "8 word"
type_synonym uint = "16 word"

subsection \<open>Constants of the header\<close>

definition READSTATUS :: byte where "READSTATUS = 0xAA"
definition VERIFYRESUME :: byte where "VERIFYRESUME = 0xA5"
definition WRITESTATUS :: byte where "WRITESTATUS = 0x55"
definition READMEMORY :: byte where "READMEMORY = 0xF0"
definition WRITEMEMORY :: byte where "WRITEMEMORY = 0x0F"

definition CRC_MISMATCH :: int where "CRC_MISMATCH = -1"
definition INVALID_PAGE :: int where "INVALID_PAGE = -2"
definition BAD_INTEGRITY :: int where "BAD_INTEGRITY = -4"
definition COPY_FAILURE :: int where "COPY_FAILURE = -5"
definition DEVICE_DISCONNECTED :: int where "DEVICE_DISCONNECTED = -127"

text \<open>
  The conversion of an \<^verbatim>\<open>int\<close> to \<^verbatim>\<open>bool\<close>, which C++ applies to the operand of a
  \<^verbatim>\<open>return\<close> in a function declared \<^verbatim>\<open>bool\<close>: zero is false, anything else true.
\<close>

definition bool_of_int :: "int \<Rightarrow> bool" where
  "bool_of_int v = (v \<noteq> 0)"

subsection \<open>The table of supported chips\<close>

text \<open>
  \<^verbatim>\<open>model_type\<close>. The field \<^verbatim>\<open>id\<close> is \<open>id_m\<close> here (\<^term>\<open>id\<close> is the identity of
  HOL); \<^verbatim>\<open>name\<close> is a \<^verbatim>\<open>const char*\<close>, with \<^term>\<open>None\<close> for the null pointer.
\<close>

record model_type =
  id_m :: byte
  name :: "string option"
  pages :: int
  isEPROM :: bool

definition chip_model_list :: "model_type list" where
  "chip_model_list =
    [\<lparr>id_m = 0x09, name = Some ''DS2502'', pages = 4, isEPROM = True\<rparr>,
     \<lparr>id_m = 0x0B, name = Some ''DS2505'', pages = 64, isEPROM = True\<rparr>,
     \<lparr>id_m = 0x14, name = Some ''DS2430'', pages = 1, isEPROM = False\<rparr>,
     \<lparr>id_m = 0x2D, name = Some ''DS2431'', pages = 4, isEPROM = False\<rparr>,
     \<lparr>id_m = 0x23, name = Some ''DS2433'', pages = 16, isEPROM = False\<rparr>,
     \<lparr>id_m = 0, name = None, pages = 0, isEPROM = False\<rparr>]"

text \<open>
  \<^verbatim>\<open>_chip_model_list[i]\<close>. The code reads the table at the session's index only; every
  index that \<^verbatim>\<open>search\<close> or \<^verbatim>\<open>setAddress\<close> stores is inside the table (lemmas
  \<open>setAddress_index\<close> and \<open>search_index\<close> below). A read outside the table is undefined in
  C++; the model gives the all-zero terminator entry there.
\<close>

definition chip_model :: "int \<Rightarrow> model_type" where
  "chip_model i =
    (if 0 \<le> i \<and> nat i < length chip_model_list then chip_model_list ! nat i
     else \<lparr>id_m = 0, name = None, pages = 0, isEPROM = False\<rparr>)"

text \<open>
  The scan that \<^verbatim>\<open>isSupported\<close>, \<^verbatim>\<open>search\<close> and \<^verbatim>\<open>setAddress\<close> each write out:
  \<^verbatim>\<open>while (_chip_model_list[i].id) { if (code == _chip_model_list[i].id) return i; ++i; }\<close>
  from index \<open>i\<close> on, over the rest \<open>ms\<close> of the table. The terminator stops it before the
  end of the table.
\<close>

fun scan :: "byte \<Rightarrow> model_type list \<Rightarrow> int \<Rightarrow> int option" where
  "scan code [] i = None"
| "scan code (m # ms) i =
    (if id_m m = 0 then None
     else if code = id_m m then Some i
     else scan code ms (i + 1))"

subsection \<open>The session\<close>

text \<open>
  \<^verbatim>\<open>uint8_t _addr[8]\<close>: eight bytes, the family code first.
\<close>

datatype rom = Rom byte byte byte byte byte byte byte byte

fun family :: "rom \<Rightarrow> byte" where
  "family (Rom b0 b1 b2 b3 b4 b5 b6 b7) = b0"

text \<open>
  The data members of the class, without the pointer \<^verbatim>\<open>_wire\<close>: the bus driver is
  passed to each operation and returned by it.
\<close>

record session =
  addr :: rom
  progPin :: int
  curModelIndex :: int

subsection \<open>The bus driver and the board\<close>

text \<open>
  Modelled from the spec: the OneWire bus driver (\<^verbatim>\<open>reset\<close>, \<^verbatim>\<open>reset_search\<close>,
  \<^verbatim>\<open>search\<close>, \<^verbatim>\<open>select\<close>, \<^verbatim>\<open>write\<close>, \<^verbatim>\<open>read\<close>, \<^verbatim>\<open>read_bytes\<close>,
  \<^verbatim>\<open>depower\<close>, \<^verbatim>\<open>crc8\<close>) and the Arduino functions \<^verbatim>\<open>pinMode\<close>,
  \<^verbatim>\<open>digitalWrite\<close>, \<^verbatim>\<open>delayMicroseconds\<close> and \<^verbatim>\<open>delay\<close> are not part of the
  repository. The spec gives their interface: \<^verbatim>\<open>reset\<close> answers whether a device is
  present, \<^verbatim>\<open>search\<close> enumerates the next responding device into the buffer and answers
  false when the search is exhausted, \<^verbatim>\<open>read\<close> answers a byte, \<^verbatim>\<open>crc8\<close> maps bytes to
  a byte.

  The hardware is a script: the answers that the bus will give to the coming calls of
  \<^verbatim>\<open>reset\<close>, \<^verbatim>\<open>search\<close> and \<^verbatim>\<open>read\<close>, in order, the CRC function of the driver,
  and the trace of everything the code has done to the bus and the board so far. Any
  behaviour of the devices on the bus is some script. Past the end of its script
  \<^verbatim>\<open>reset\<close> finds no device, \<^verbatim>\<open>search\<close> is exhausted and \<^verbatim>\<open>read\<close> answers
  \<open>0xFF\<close>, the value of an idle bus. A search that answers false leaves the buffer as
  it was.
\<close>

datatype event =
    Reset
  | ResetSearch
  | Search
  | Select rom
  | Write byte
  | WritePower byte
  | Read
  | Depower
  | PinMode int
  | DigitalWrite int bool
  | DelayMicroseconds nat
  | Delay nat

record hw =
  presence :: "bool list"
  found :: "rom option list"
  rx :: "byte list"
  crc8 :: "byte list \<Rightarrow> byte"
  trace :: "event list"

definition emit :: "event \<Rightarrow> hw \<Rightarrow> hw" where
  "emit e h = h\<lparr>trace := trace h @ [e]\<rparr>"

definition wire_reset :: "hw \<Rightarrow> bool \<times> hw" where
  "wire_reset h =
    (case presence h of
       [] \<Rightarrow> (False, emit Reset h)
     | p # ps \<Rightarrow> (p, emit Reset (h\<lparr>presence := ps\<rparr>)))"

definition wire_reset_search :: "hw \<Rightarrow> hw" where
  "wire_reset_search h = emit ResetSearch h"

definition wire_search :: "hw \<Rightarrow> rom option \<times> hw" where
  "wire_search h =
    (case found h of
       [] \<Rightarrow> (None, emit Search h)
     | a # as \<Rightarrow> (a, emit Search (h\<lparr>found := as\<rparr>)))"

definition wire_select :: "rom \<Rightarrow> hw \<Rightarrow> hw" where
  "wire_select a h = emit (Select a) h"

definition wire_write :: "byte \<Rightarrow> hw \<Rightarrow> hw" where
  "wire_write v h = emit (Write v) h"

definition wire_write_power :: "byte \<Rightarrow> hw \<Rightarrow> hw" where
  "wire_write_power v h = emit (WritePower v) h"

definition wire_read :: "hw \<Rightarrow> byte \<times> hw" where
  "wire_read h =
    (case rx h of
       [] \<Rightarrow> (0xFF, emit Read h)
     | v # vs \<Rightarrow> (v, emit Read (h\<lparr>rx := vs\<rparr>)))"

definition wire_depower :: "hw \<Rightarrow> hw" where
  "wire_depower h = emit Depower h"

definition pinMode :: "int \<Rightarrow> hw \<Rightarrow> hw" where
  "pinMode pin h = emit (PinMode pin) h"

definition digitalWrite :: "int \<Rightarrow> bool \<Rightarrow> hw \<Rightarrow> hw" where
  "digitalWrite pin level h = emit (DigitalWrite pin level) h"

definition delayMicroseconds :: "nat \<Rightarrow> hw \<Rightarrow> hw" where
  "delayMicroseconds us h = emit (DelayMicroseconds us) h"

definition delay :: "nat \<Rightarrow> hw \<Rightarrow> hw" where
  "delay ms h = emit (Delay ms) h"

text \<open>
  \<^verbatim>\<open>read_bytes(buf, n)\<close>, and the loop \<^verbatim>\<open>for (i = 0; i < n; i++) buf[i] = read()\<close>:
  \<open>n\<close> reads in a row.
\<close>

fun wire_read_bytes :: "nat \<Rightarrow> hw \<Rightarrow> byte list \<times> hw" where
  "wire_read_bytes 0 h = ([], h)"
| "wire_read_bytes (Suc n) h =
    (let (v, h1) = wire_read h;
         (vs, h2) = wire_read_bytes n h1
     in (v # vs, h2))"

text \<open>
  \<^verbatim>\<open>for (i = 0; i < n; i++) _wire->write(buf[i])\<close> over the bytes \<open>buf[0..n-1]\<close>.
\<close>

fun wire_write_all :: "byte list \<Rightarrow> hw \<Rightarrow> hw" where
  "wire_write_all [] h = h"
| "wire_write_all (v # vs) h = wire_write_all vs (wire_write v h)"

subsection \<open>Construction, lookup, search\<close>

text \<open>
  The two constructors assign \<^verbatim>\<open>_wire\<close> and \<^verbatim>\<open>_progPin\<close> and nothing else: the
  members \<^verbatim>\<open>_addr\<close> and \<^verbatim>\<open>_curModelIndex\<close> keep what the object's storage held
  before. The argument \<open>storage\<close> is that content. An object with static storage
  duration (a global, as in an Arduino sketch) is zero-initialised before its constructor
  runs: \<open>static_storage\<close>.
\<close>

definition DallasEPROM :: "session \<Rightarrow> session" where
  "DallasEPROM storage = storage\<lparr>progPin := -1\<rparr>"

definition DallasEPROM_pin :: "session \<Rightarrow> int \<Rightarrow> hw \<Rightarrow> session \<times> hw" where
  "DallasEPROM_pin storage pin h =
    (storage\<lparr>progPin := pin\<rparr>, digitalWrite pin False (pinMode pin h))"

definition static_storage :: session where
  "static_storage = \<lparr>addr = Rom 0 0 0 0 0 0 0 0, progPin = 0, curModelIndex = 0\<rparr>"


text \<open>
  The loop \<^verbatim>\<open>while (_wire->search(_addr)) { ... }\<close> of \<^verbatim>\<open>search\<close>. Each device the
  driver enumerates is written to \<^verbatim>\<open>_addr\<close> before its family code is looked up.
\<close>

function search_loop :: "session \<Rightarrow> hw \<Rightarrow> bool \<times> session \<times> hw" where
  "search_loop s h =
    (case wire_search h of
       (None, h1) \<Rightarrow> (False, s, h1)
     | (Some a, h1) \<Rightarrow>
         (let s1 = s\<lparr>addr := a\<rparr> in
          case scan (family a) chip_model_list 0 of
            Some i \<Rightarrow> (True, s1\<lparr>curModelIndex := i\<rparr>, h1)
          | None \<Rightarrow> search_loop s1 h1))"
  by pat_completeness auto
termination
  by (relation "measure (\<lambda>(s, h). length (found h))")
     (auto simp: wire_search_def emit_def split: list.splits)

definition search :: "session \<Rightarrow> hw \<Rightarrow> bool \<times> session \<times> hw" where
  "search s h =
    (let s1 = s\<lparr>curModelIndex := -1\<rparr>;
         (present, h1) = wire_reset h
     in if \<not> present then (False, s1, h1)
        else search_loop s1 (wire_reset_search h1))"

definition getAddress :: "session \<Rightarrow> rom" where
  "getAddress s = addr s"

definition setAddress :: "session \<Rightarrow> rom \<Rightarrow> session" where
  "setAddress s pAddress =
    (let s1 = s\<lparr>curModelIndex := -1\<rparr>;
         s2 = s1\<lparr>addr := pAddress\<rparr>
     in case scan (family (addr s2)) chip_model_list 0 of
          Some i \<Rightarrow> s2\<lparr>curModelIndex := i\<rparr>
        | None \<Rightarrow> s2)"

definition getDeviceName :: "session \<Rightarrow> string option" where
  "getDeviceName s =
    (if curModelIndex s \<ge> 0 then name (chip_model (curModelIndex s)) else None)"

text \<open>
  The loop of \<^verbatim>\<open>isConnected\<close>: \<^verbatim>\<open>memcmp(_addr, tmpAddress, 8) == 0\<close> is equality of
  the two addresses.
\<close>

function connected_loop :: "session \<Rightarrow> hw \<Rightarrow> bool \<times> hw" where
  "connected_loop s h =
    (case wire_search h of
       (None, h1) \<Rightarrow> (False, h1)
     | (Some tmpAddress, h1) \<Rightarrow>
         (if addr s = tmpAddress then (True, h1) else connected_loop s h1))"
  by pat_completeness auto
termination
  by (relation "measure (\<lambda>(s, h). length (found h))")
     (auto simp: wire_search_def emit_def split: list.splits)

definition isConnected :: "session \<Rightarrow> hw \<Rightarrow> bool \<times> hw" where
  "isConnected s h =
    (let (present, h1) = wire_reset h
     in if \<not> present then (False, h1)
        else connected_loop s (wire_reset_search h1))"

definition isPageValid :: "session \<Rightarrow> int \<Rightarrow> bool" where
  "isPageValid s page =
    (if curModelIndex s \<ge> 0 \<and> page < pages (chip_model (curModelIndex s)) then True
     else False)"

definition isEPROMDevice :: "session \<Rightarrow> bool" where
  "isEPROMDevice s =
    (if curModelIndex s \<ge> 0 \<and> isEPROM (chip_model (curModelIndex s)) = True then True
     else False)"

subsection \<open>The page operations\<close>

text \<open>
  The programming pulse, written out three times in the source:
  \<^verbatim>\<open>if (_progPin >= 0) { digitalWrite(_progPin, HIGH); delayMicroseconds(500);
  digitalWrite(_progPin, LOW); } delayMicroseconds(500);\<close>
\<close>

definition pulse :: "session \<Rightarrow> hw \<Rightarrow> hw" where
  "pulse s h =
    (let h1 = (if progPin s \<ge> 0
               then digitalWrite (progPin s) False
                      (delayMicroseconds 500 (digitalWrite (progPin s) True h))
               else h)
     in delayMicroseconds 500 h1)"

text \<open>\<^verbatim>\<open>_wire->reset(); _wire->select(_addr);\<close> The answer of the reset is dropped.\<close>

definition reset_select :: "session \<Rightarrow> hw \<Rightarrow> hw" where
  "reset_select s h = wire_select (addr s) (snd (wire_reset h))"

text \<open>
  \<^verbatim>\<open>scratchWrite\<close>. The buffer \<open>data\<close> is the memory from the pointer on, of which
  the bytes \<open>data[0..len-1]\<close> are sent. The test \<^verbatim>\<open>name == "DS2430"\<close> compares two
  pointers to string literals of one translation unit; the model takes equal literals
  as one object, as the toolchain's merging of constants makes them.

  Lines 342 to 366, the commit, are \<open>scratch_commit\<close>: \<^term>\<open>Some BAD_INTEGRITY\<close> is the
  early return of the integrity loop, \<^term>\<open>None\<close> falls through to the delay.
\<close>

fun verify_echo :: "byte list \<Rightarrow> hw \<Rightarrow> bool \<times> hw" where
  "verify_echo [] h = (True, h)"
| "verify_echo (d # ds) h =
    (let (v, h1) = wire_read h
     in if v \<noteq> d then (False, h1) else verify_echo ds h1)"

definition scratch_commit :: "session \<Rightarrow> hw \<Rightarrow> byte list \<Rightarrow> int option \<times> hw" where
  "scratch_commit s h sent =
    (if name (chip_model (curModelIndex s)) = Some ''DS2430'' then
       (None, wire_write VERIFYRESUME (wire_write WRITESTATUS (reset_select s h)))
     else
       (let h1 = wire_write READSTATUS (reset_select s h);
            (auth, h2) = wire_read_bytes 3 h1;
            (same, h3) = verify_echo sent h2
        in if \<not> same then (Some BAD_INTEGRITY, h3)
           else (None,
                 wire_write_power (auth ! 2)
                   (wire_write (auth ! 1)
                     (wire_write (auth ! 0)
                       (wire_write WRITESTATUS (reset_select s h3)))))))"

definition scratchWrite :: "session \<Rightarrow> hw \<Rightarrow> byte list \<Rightarrow> int \<Rightarrow> uint \<Rightarrow> int \<times> hw" where
  "scratchWrite s h data len address =
    (let sent = take (nat len) data;
         h1 = wire_write (ucast (drop_bit 8 address))
                (wire_write (ucast address)
                  (wire_write WRITEMEMORY (reset_select s h)));
         h2 = wire_write_all sent h1
     in case scratch_commit s h2 sent of
          (Some status, h3) \<Rightarrow> (status, h3)
        | (None, h3) \<Rightarrow>
            (let h4 = wire_depower (delay 10 h3)
             in if name (chip_model (curModelIndex s)) \<noteq> Some ''DS2430'' then
                  (let (v, h5) = wire_read h4
                   in if v \<noteq> 0xAA then (COPY_FAILURE, h5) else (0, h5))
                else (0, h4)))"

text \<open>
  \<^verbatim>\<open>readPage\<close>. Lines 130 to 145, the redirection of an EPROM page, are
  \<open>read_redirect\<close>: it answers the status of an early return or the address to read at.
  Lines 147 to 167 are \<open>read_memory\<close>. The result carries the 32-byte buffer: the bytes
  read in front of what the buffer held beyond them, or the buffer as it was when the
  operation fails.
\<close>

definition read_redirect :: "session \<Rightarrow> hw \<Rightarrow> int \<Rightarrow> uint \<Rightarrow> (int + uint) \<times> hw" where
  "read_redirect s h page address =
    (if isEPROMDevice s then
       (let command = [READSTATUS, word_of_int (page + 1), 0x00];
            h1 = wire_write (command ! 2)
                   (wire_write (command ! 1)
                     (wire_write (command ! 0) (reset_select s h)));
            (c, h2) = wire_read h1
        in if crc8 h command \<noteq> c then (Inl CRC_MISMATCH, h2)
           else (let (new_addr, h3) = wire_read h2
                 in if new_addr \<noteq> 0xFF then (Inr (ucast new_addr), h3)
                    else (Inr address, h3)))
     else (Inr address, h))"

definition read_memory :: "session \<Rightarrow> hw \<Rightarrow> byte list \<Rightarrow> uint \<Rightarrow> int \<times> byte list \<times> hw" where
  "read_memory s h data address =
    (let command = [READMEMORY, ucast address, ucast (drop_bit 8 address)];
         h1 = wire_write (command ! 2)
                (wire_write (command ! 1)
                  (wire_write (command ! 0) (reset_select s h)));
         (bad, h2) = (if isEPROMDevice s
                      then (let (c, h') = wire_read h1 in (crc8 h command \<noteq> c, h'))
                      else (False, h1))
     in if bad then (CRC_MISMATCH, data, h2)
        else (let (bytes, h3) = wire_read_bytes 32 h2
              in (0, bytes @ drop 32 data, h3)))"

definition readPage :: "session \<Rightarrow> hw \<Rightarrow> byte list \<Rightarrow> int \<Rightarrow> int \<times> byte list \<times> hw" where
  "readPage s h data page =
    (let address = (word_of_int (page * 32) :: uint)
     in if \<not> isPageValid s page then (INVALID_PAGE, data, h)
        else (let (connected, h1) = isConnected s h
              in if \<not> connected then (DEVICE_DISCONNECTED, data, h1)
                 else (case read_redirect s h1 page address of
                         (Inl status, h2) \<Rightarrow> (status, data, h2)
                       | (Inr address', h2) \<Rightarrow> read_memory s h2 data address')))"

text \<open>
  \<^verbatim>\<open>writePage\<close>. The loop of the EEPROM path,
  \<^verbatim>\<open>for (i = 0; i < 32; i += 8) if ((status = scratchWrite(&data[i], 8, address + i))) return status;\<close>
  is \<open>write_chunks\<close>; \<^verbatim>\<open>&data[i]\<close> is the buffer from its \<open>i\<close>-th byte on.
\<close>

function write_chunks :: "session \<Rightarrow> hw \<Rightarrow> byte list \<Rightarrow> uint \<Rightarrow> nat \<Rightarrow> int \<times> hw" where
  "write_chunks s h data address i =
    (if i < 32 then
       (case scratchWrite s h (drop i data) 8 (address + word_of_nat i) of
          (status, h1) \<Rightarrow>
            if status \<noteq> 0 then (status, h1)
            else write_chunks s h1 data address (i + 8))
     else (0, h))"
  by pat_completeness auto
termination
  by (relation "measure (\<lambda>(s, h, data, address, i). 32 - i)") auto

text \<open>
  The loop of the EPROM path over the bytes \<open>data[1..31]\<close>: write the byte, read and drop
  the CRC the device answers, pulse, read the byte back.
\<close>

fun burn_rest :: "session \<Rightarrow> hw \<Rightarrow> byte list \<Rightarrow> int \<times> hw" where
  "burn_rest s h [] = (0, h)"
| "burn_rest s h (d # ds) =
    (let h1 = wire_write d h;
         (crc, h2) = wire_read h1;
         h3 = pulse s h2;
         (v, h4) = wire_read h3
     in if d \<noteq> v then (COPY_FAILURE, h4) else burn_rest s h4 ds)"

definition writePage :: "session \<Rightarrow> hw \<Rightarrow> byte list \<Rightarrow> int \<Rightarrow> int \<times> hw" where
  "writePage s h data page =
    (let address = (word_of_int (page * 32) :: uint)
     in if \<not> isPageValid s page then (INVALID_PAGE, h)
        else (let (connected, h1) = isConnected s h
              in if \<not> connected then (DEVICE_DISCONNECTED, h1)
                 else if \<not> isEPROMDevice s then write_chunks s h1 data address 0
                 else
                   (let command = [WRITEMEMORY, ucast address, ucast (drop_bit 8 address),
                                   data ! 0];
                        h2 = wire_write (command ! 3)
                               (wire_write (command ! 2)
                                 (wire_write (command ! 1)
                                   (wire_write (command ! 0) (reset_select s h1))));
                        (c, h3) = wire_read h2
                    in if crc8 h command \<noteq> c then (CRC_MISMATCH, h3)
                       else (let h4 = pulse s h3;
                                 (v, h5) = wire_read h4
                             in if command ! 3 \<noteq> v then (COPY_FAILURE, h5)
                                else burn_rest s h5 (take 31 (drop 1 data))))))"

text \<open>
  The shifts \<^verbatim>\<open>1 << page\<close> and \<^verbatim>\<open>status >> page\<close> work on an \<^verbatim>\<open>int\<close> of 16 bits. C++
  defines them for a shift count from 0 to 15 only: \<open>shift_defined\<close>. For any other
  count the behaviour of the program is undefined and differs between targets; the
  model gives the value \<open>0\<close> (no bit) there, and no theorem below is about such a count.
\<close>

definition shift_defined :: "int \<Rightarrow> bool" where
  "shift_defined page = (0 \<le> page \<and> page < 16)"

text \<open>
  \<^verbatim>\<open>lockPage\<close>. The last byte of the EPROM command is \<^verbatim>\<open>(1 << page)\<close> stored in a
  \<^verbatim>\<open>byte\<close>: the low eight bits of the shifted \<^verbatim>\<open>int\<close>. On the EEPROM path the
  status that \<^verbatim>\<open>scratchWrite\<close> returns is dropped.
\<close>

definition lock_mask :: "int \<Rightarrow> byte" where
  "lock_mask page =
    (if shift_defined page then word_of_int (push_bit (nat page) 1) else 0)"

definition lockPage :: "session \<Rightarrow> hw \<Rightarrow> int \<Rightarrow> int \<times> hw" where
  "lockPage s h page =
    (if \<not> isPageValid s page then (INVALID_PAGE, h)
     else (let (connected, h1) = isConnected s h
           in if \<not> connected then (DEVICE_DISCONNECTED, h1)
              else (let h2 = reset_select s h1
                    in if isEPROMDevice s then
                         (let command = [WRITESTATUS, 0x00, 0x00, lock_mask page];
                              h3 = wire_write (command ! 3)
                                     (wire_write (command ! 2)
                                       (wire_write (command ! 1)
                                         (wire_write (command ! 0) h2)));
                              (c, h4) = wire_read h3
                          in if crc8 h command \<noteq> c then (CRC_MISMATCH, h4)
                             else (0, pulse s h4))
                       else
                         (let data = [0x55];
                              start = (word_of_int
                                         (pages (chip_model (curModelIndex s)) * 32 + page)
                                       :: uint);
                              (status, h3) = scratchWrite s h2 data 1 start
                          in (0, h3)))))"

text \<open>
  \<^verbatim>\<open>isPageLocked\<close> is declared \<^verbatim>\<open>bool\<close>: the operand of each \<^verbatim>\<open>return\<close> is
  converted to \<^verbatim>\<open>bool\<close>, the status codes too. In \<^verbatim>\<open>1 & (status >> page)\<close> the
  status byte is promoted to \<^verbatim>\<open>int\<close>: \<open>status_bit\<close>.
\<close>

definition status_bit :: "byte \<Rightarrow> int \<Rightarrow> int" where
  "status_bit status page =
    (if shift_defined page then 1 AND drop_bit (nat page) (uint status) else 0)"

definition isPageLocked :: "session \<Rightarrow> hw \<Rightarrow> int \<Rightarrow> bool \<times> hw" where
  "isPageLocked s h page =
    (if \<not> isPageValid s page then (bool_of_int INVALID_PAGE, h)
     else (let (connected, h1) = isConnected s h
           in if \<not> connected then (bool_of_int DEVICE_DISCONNECTED, h1)
              else (let h2 = reset_select s h1
                    in if isEPROMDevice s then
                         (let command = [READSTATUS, 0x00, 0x00];
                              h3 = wire_write (command ! 2)
                                     (wire_write (command ! 1)
                                       (wire_write (command ! 0) h2));
                              (c, h4) = wire_read h3
                          in if crc8 h command \<noteq> c then (bool_of_int CRC_MISMATCH, h4)
                             else (let (status, h5) = wire_read h4;
                                       h6 = snd (wire_reset h5)
                                   in (bool_of_int (status_bit status page), h6)))
                       else
                         (let start = (word_of_int
                                         (pages (chip_model (curModelIndex s)) * 32 + page)
                                       :: uint);
                              h3 = wire_write (ucast (drop_bit 8 start))
                                     (wire_write (ucast start)
                                       (wire_write READMEMORY h2));
                              (v, h4) = wire_read h3
                          in if v = 0x55 then (True, h4) else (False, h4)))))"

subsection \<open>The registry\<close>

text \<open>
  The entries of the table that the scans can reach: those in front of the terminator.
\<close>

definition registry :: "model_type list" where
  "registry = takeWhile (\<lambda>m. id_m m \<noteq> 0) chip_model_list"

text \<open>A session is resolved when its index names a model: \<^verbatim>\<open>_curModelIndex >= 0\<close>.\<close>

definition resolved :: "session \<Rightarrow> bool" where
  "resolved s = (curModelIndex s \<ge> 0)"

text \<open>
  The EEPROM path of \<^verbatim>\<open>writePage\<close> in the words of the specification: commit each
  chunk at its offset through the scratchpad, in order, and stop with the first status
  that is not zero. It is compared with \<open>write_chunks\<close>, the loop of the source, below.
\<close>

fun commits :: "session \<Rightarrow> hw \<Rightarrow> (byte list \<times> uint) list \<Rightarrow> int \<times> hw" where
  "commits s h [] = (0, h)"
| "commits s h ((chunk, offset) # rest) =
    (case scratchWrite s h chunk (int (length chunk)) offset of
       (status, h1) \<Rightarrow> if status \<noteq> 0 then (status, h1) else commits s h1 rest)"

text \<open>
  The bus traffic of the scratchpad sub-protocol in the words of the specification.
  \<open>scratch_write_events\<close>: the command \<open>{WRITEMEMORY, addrLow, addrHigh}\<close> and the chunk,
  sent to the scratchpad. \<open>commit_events\<close>: a commit carried through: the write to the
  scratchpad; then, for the DS2430, \<open>{WRITESTATUS, VERIFYRESUME}\<close>, and for any other
  model \<open>{READSTATUS}\<close>, the reads of three auth bytes and of the echo of every byte of
  the chunk, and \<open>{WRITESTATUS, auth0, auth1, auth2}\<close>; then the wait of 10 ms and the
  power-down, and for a model other than the DS2430 the read of the success byte.
  \<open>aborted_events\<close>: a commit given up at the \<open>k\<close>-th byte of the echo, before any commit
  command. \<open>chain_events\<close>: commits carried through one after another, each with its auth
  bytes. \<open>page_chunks\<close>: the four chunks of 8 bytes of a page with their offsets.
\<close>

definition scratch_write_events :: "session \<Rightarrow> byte list \<Rightarrow> uint \<Rightarrow> event list" where
  "scratch_write_events s chunk offset =
    [Reset, Select (addr s), Write WRITEMEMORY, Write (ucast offset),
     Write (ucast (drop_bit 8 offset))]
    @ map Write chunk"

definition commit_events :: "session \<Rightarrow> byte list \<Rightarrow> uint \<Rightarrow> byte list \<Rightarrow> event list" where
  "commit_events s chunk offset auth =
    scratch_write_events s chunk offset
    @ (if name (chip_model (curModelIndex s)) = Some ''DS2430'' then
         [Reset, Select (addr s), Write WRITESTATUS, Write VERIFYRESUME, Delay 10, Depower]
       else
         [Reset, Select (addr s), Write READSTATUS]
         @ replicate (3 + length chunk) Read
         @ [Reset, Select (addr s), Write WRITESTATUS, Write (auth ! 0), Write (auth ! 1),
            WritePower (auth ! 2), Delay 10, Depower, Read])"

definition aborted_events :: "session \<Rightarrow> byte list \<Rightarrow> uint \<Rightarrow> nat \<Rightarrow> event list" where
  "aborted_events s chunk offset k =
    scratch_write_events s chunk offset
    @ [Reset, Select (addr s), Write READSTATUS]
    @ replicate (3 + k) Read"

fun chain_events :: "session \<Rightarrow> (byte list \<times> uint) list \<Rightarrow> byte list list \<Rightarrow> event list" where
  "chain_events s ((chunk, offset) # rest) (auth # auths) =
     commit_events s chunk offset auth @ chain_events s rest auths"
| "chain_events s cs auths = []"

definition page_chunks :: "byte list \<Rightarrow> int \<Rightarrow> (byte list \<times> uint) list" where
  "page_chunks data page =
    [(take 8 data, word_of_int (page * 32 + 0)),
     (take 8 (drop 8 data), word_of_int (page * 32 + 8)),
     (take 8 (drop 16 data), word_of_int (page * 32 + 16)),
     (take 8 (drop 24 data), word_of_int (page * 32 + 24))]"


text \<open>
  The bytes that the next \<open>n\<close> reads return when the bus holds the answers \<open>answers\<close>.
\<close>

definition upcoming :: "nat \<Rightarrow> byte list \<Rightarrow> byte list" where
  "upcoming n answers = take n (answers @ replicate n 0xFF)"

subsection \<open>Devices and drivers of the scenarios\<close>

text \<open>
  The CRC of the 1-Wire devices (polynomial \<open>X^8 + X^5 + X^4 + 1\<close>, bits taken from
  the low end), which the driver's \<^verbatim>\<open>crc8\<close> computes: the CRC function of the drivers
  in the scenarios below. The theorems on all drivers hold for any CRC function.
\<close>

fun crc8_bits :: "nat \<Rightarrow> byte \<Rightarrow> byte \<Rightarrow> byte" where
  "crc8_bits 0 crc inbyte = crc"
| "crc8_bits (Suc n) crc inbyte =
    (let mix = (crc XOR inbyte) AND 0x01;
         crc1 = drop_bit 1 crc;
         crc2 = (if mix \<noteq> 0 then crc1 XOR 0x8C else crc1)
     in crc8_bits n crc2 (drop_bit 1 inbyte))"

fun dallas_crc8_from :: "byte \<Rightarrow> byte list \<Rightarrow> byte" where
  "dallas_crc8_from crc [] = crc"
| "dallas_crc8_from crc (b # bs) = dallas_crc8_from (crc8_bits 8 crc b) bs"

definition dallas_crc8 :: "byte list \<Rightarrow> byte" where
  "dallas_crc8 bs = dallas_crc8_from 0 bs"

definition ds2502_rom :: rom where
  "ds2502_rom = Rom 0x09 0x11 0x22 0x33 0x44 0x55 0x66 0x77"

definition ds2505_rom :: rom where
  "ds2505_rom = Rom 0x0B 0x11 0x22 0x33 0x44 0x55 0x66 0x77"

definition ds2431_rom :: rom where
  "ds2431_rom = Rom 0x2D 0x11 0x22 0x33 0x44 0x55 0x66 0x77"

definition unknown_rom :: rom where
  "unknown_rom = Rom 0xFF 0x11 0x22 0x33 0x44 0x55 0x66 0x77"


text \<open>
  A bus with one device \<open>a\<close> on it, which answers the reads with \<open>answers\<close>: the reset
  of \<^verbatim>\<open>isConnected\<close> finds a device and its search enumerates \<open>a\<close>. A bus with no
  device at all is \<open>empty_bus\<close>.
\<close>

definition bus_with :: "rom \<Rightarrow> byte list \<Rightarrow> hw" where
  "bus_with a answers =
    \<lparr>presence = [True], found = [Some a], rx = answers, crc8 = dallas_crc8, trace = []\<rparr>"

definition empty_bus :: hw where
  "empty_bus = \<lparr>presence = [], found = [], rx = [], crc8 = dallas_crc8, trace = []\<rparr>"


text \<open>
  A page of data, and the answers of an EEPROM that accepts its four chunks: for each
  chunk three auth bytes, the echo of the chunk, and \<open>0xAA\<close> after the commit.
\<close>

definition sample_page :: "byte list" where
  "sample_page =
    [0x01, 0x02, 0x03, 0x04, 0x05, 0x06, 0x07, 0x08,
     0x09, 0x0A, 0x0B, 0x0C, 0x0D, 0x0E, 0x0F, 0x10,
     0x11, 0x12, 0x13, 0x14, 0x15, 0x16, 0x17, 0x18,
     0x19, 0x1A, 0x1B, 0x1C, 0x1D, 0x1E, 0x1F, 0x20]"

definition accepting_answers :: "byte list" where
  "accepting_answers =
    [0xA0, 0xA1, 0xA2] @ take 8 sample_page @ [0xAA]
    @ [0xA0, 0xA1, 0xA2] @ take 8 (drop 8 sample_page) @ [0xAA]
    @ [0xA0, 0xA1, 0xA2] @ take 8 (drop 16 sample_page) @ [0xAA]
    @ [0xA0, 0xA1, 0xA2] @ take 8 (drop 24 sample_page) @ [0xAA]"

text \<open>
  The session of a sketch that constructs a global \<^verbatim>\<open>DallasEPROM\<close> and then calls
  \<^verbatim>\<open>setAddress\<close> with the address \<open>a\<close>.
\<close>

definition session_of :: "rom \<Rightarrow> session" where
  "session_of a = setAddress (DallasEPROM static_storage) a"

section \<open>Lemmas on the bus driver\<close>

text \<open>
  The equations of \<open>search_loop\<close>, \<open>connected_loop\<close> and \<open>write_chunks\<close> are unfolded
  by hand, one iteration at a time.
\<close>

declare search_loop.simps [simp del]

declare connected_loop.simps [simp del]

declare write_chunks.simps [simp del]

lemma emit_fields [simp]:
  "trace (emit e h) = trace h @ [e]"
  "rx (emit e h) = rx h"
  "presence (emit e h) = presence h"
  "found (emit e h) = found h"
  "crc8 (emit e h) = crc8 h"
  by (simp_all add: emit_def)

lemma wire_reset_fields [simp]:
  "trace (snd (wire_reset h)) = trace h @ [Reset]"
  "rx (snd (wire_reset h)) = rx h"
  "found (snd (wire_reset h)) = found h"
  "crc8 (snd (wire_reset h)) = crc8 h"
  "presence (snd (wire_reset h)) = tl (presence h)"
  by (simp_all add: wire_reset_def split: list.splits)

lemma wire_read_fields [simp]:
  "trace (snd (wire_read h)) = trace h @ [Read]"
  "rx (snd (wire_read h)) = tl (rx h)"
  "found (snd (wire_read h)) = found h"
  "crc8 (snd (wire_read h)) = crc8 h"
  "presence (snd (wire_read h)) = presence h"
  by (simp_all add: wire_read_def split: list.splits)

lemma wire_read_fst: "fst (wire_read h) = (case rx h of [] \<Rightarrow> 0xFF | v # vs \<Rightarrow> v)"
  by (simp add: wire_read_def split: list.splits)

lemma wire_search_Nil: "found h = [] \<Longrightarrow> wire_search h = (None, emit Search h)"
  by (simp add: wire_search_def)

lemma wire_search_Cons:
  "found h = x # xs \<Longrightarrow> wire_search h = (x, emit Search (h\<lparr>found := xs\<rparr>))"
  by (simp add: wire_search_def)

lemma wire_search_fields [simp]:
  "trace (snd (wire_search h)) = trace h @ [Search]"
  "rx (snd (wire_search h)) = rx h"
  "crc8 (snd (wire_search h)) = crc8 h"
  "presence (snd (wire_search h)) = presence h"
  "found (snd (wire_search h)) = tl (found h)"
  by (simp_all add: wire_search_def split: list.splits)

lemma reset_select_fields [simp]:
  "trace (reset_select s h) = trace h @ [Reset, Select (addr s)]"
  "rx (reset_select s h) = rx h"
  "found (reset_select s h) = found h"
  "crc8 (reset_select s h) = crc8 h"
  by (simp_all add: reset_select_def wire_select_def)

lemma wire_write_fields [simp]:
  "trace (wire_write v h) = trace h @ [Write v]"
  "rx (wire_write v h) = rx h"
  "found (wire_write v h) = found h"
  "crc8 (wire_write v h) = crc8 h"
  "presence (wire_write v h) = presence h"
  by (simp_all add: wire_write_def)

lemma wire_write_all_fields [simp]:
  "trace (wire_write_all vs h) = trace h @ map Write vs"
  "rx (wire_write_all vs h) = rx h"
  "found (wire_write_all vs h) = found h"
  "crc8 (wire_write_all vs h) = crc8 h"
  "presence (wire_write_all vs h) = presence h"
  by (induction vs arbitrary: h) simp_all

lemma wire_tail_fields [simp]:
  "trace (wire_write_power v h) = trace h @ [WritePower v]"
  "rx (wire_write_power v h) = rx h"
  "trace (wire_depower h) = trace h @ [Depower]"
  "rx (wire_depower h) = rx h"
  "trace (delay n h) = trace h @ [Delay n]"
  "rx (delay n h) = rx h"
  by (simp_all add: wire_write_power_def wire_depower_def delay_def)

lemma upcoming_0 [simp]: "upcoming 0 answers = []"
  by (simp add: upcoming_def)

lemma upcoming_Suc:
  "upcoming (Suc n) answers =
     (case answers of [] \<Rightarrow> 0xFF | v # vs \<Rightarrow> v) # upcoming n (tl answers)"
proof (cases answers)
  case Nil
  then show ?thesis by (simp add: upcoming_def)
next
  case (Cons v vs)
  have "take n (vs @ replicate (Suc n) 0xFF) = take n (vs @ replicate n (0xFF :: byte))"
    by (simp add: replicate_append_same [symmetric] del: replicate_Suc) 
  with Cons show ?thesis by (simp add: upcoming_def del: replicate_Suc)
qed

lemma wire_read_bytes_fields [simp]:
  "fst (wire_read_bytes n h) = upcoming n (rx h)"
  "trace (snd (wire_read_bytes n h)) = trace h @ replicate n Read"
  "rx (snd (wire_read_bytes n h)) = drop n (rx h)"
  "found (snd (wire_read_bytes n h)) = found h"
  "crc8 (snd (wire_read_bytes n h)) = crc8 h"
  "presence (snd (wire_read_bytes n h)) = presence h"
proof (induction n arbitrary: h)
  case 0
  {
    case 1 show ?case by simp
  next
    case 2 show ?case by simp
  next
    case 3 show ?case by simp
  next
    case 4 show ?case by simp
  next
    case 5 show ?case by simp
  next
    case 6 show ?case by simp
  }
next
  case (Suc n)
  {
    case 1 show ?case
      by (simp add: split_beta Suc.IH upcoming_Suc wire_read_fst)
  next
    case 2 show ?case
      by (simp add: split_beta Suc.IH replicate_app_Cons_same)
  next
    case 3 show ?case
      by (simp add: split_beta Suc.IH drop_Suc)
  next
    case 4 show ?case by (simp add: split_beta Suc.IH)
  next
    case 5 show ?case by (simp add: split_beta Suc.IH)
  next
    case 6 show ?case by (simp add: split_beta Suc.IH)
  }
qed

lemma replicate_3: "replicate 3 x = [x, x, x]"
  by (simp add: numeral_3_eq_3)

lemma replicate_33: "replicate 33 x = x # replicate 32 x"
proof -
  have "(33 :: nat) = Suc 32" by simp
  then show ?thesis by (simp only: replicate_Suc)
qed

lemma ucast_byte_uint_lo: "(ucast (ucast (b :: byte) :: uint) :: byte) = b"
  by (rule bit_word_eqI) (auto simp: bit_simps)

lemma ucast_byte_uint_hi: "(ucast (drop_bit 8 (ucast (b :: byte) :: uint)) :: byte) = 0"
  by (rule bit_word_eqI) (auto simp: bit_simps dest: bit_imp_le_length)

lemma connected_loop_keeps:
  "rx (snd (connected_loop s h)) = rx h \<and> crc8 (snd (connected_loop s h)) = crc8 h"
proof (induction "found h" arbitrary: h)
  case Nil
  then have "found h = []" by simp
  then show ?case
    by (simp add: connected_loop.simps [of s h] wire_search_Nil)
next
  case (Cons x xs)
  then have f: "found h = x # xs" by simp
  let ?h1 = "emit Search (h\<lparr>found := xs\<rparr>)"
  have "xs = found ?h1" by simp
  then have "rx (snd (connected_loop s ?h1)) = rx ?h1
      \<and> crc8 (snd (connected_loop s ?h1)) = crc8 ?h1"
    by (rule Cons.hyps(1))
  with f show ?case
    by (simp add: connected_loop.simps [of s h] wire_search_Cons split: option.splits)
qed

lemma isConnected_keeps [simp]:
  "rx (snd (isConnected s h)) = rx h"
  "crc8 (snd (isConnected s h)) = crc8 h"
  by (simp_all add: isConnected_def split_beta connected_loop_keeps wire_reset_search_def)

section \<open>The table and the session\<close>

lemma scan_table:
  "scan c chip_model_list 0 =
    (if c = 0x09 then Some 0 else if c = 0x0B then Some 1 else if c = 0x14 then Some 2
     else if c = 0x2D then Some 3 else if c = 0x23 then Some 4 else None)"
  by (simp add: chip_model_list_def)

lemma in_registry_iff:
  "(\<exists>m \<in> set registry. id_m m = c) \<longleftrightarrow>
     c = 0x09 \<or> c = 0x0B \<or> c = 0x14 \<or> c = 0x2D \<or> c = 0x23"
  by (auto simp: registry_def chip_model_list_def)

lemma not_in_registry_iff:
  "(\<forall>m \<in> set registry. id_m m \<noteq> c) \<longleftrightarrow>
     \<not> (c = 0x09 \<or> c = 0x0B \<or> c = 0x14 \<or> c = 0x2D \<or> c = 0x23)"
  using in_registry_iff [of c] by blast

lemma scan_index: "scan c chip_model_list 0 = Some i \<Longrightarrow> 0 \<le> i \<and> i < 5"
  by (simp add: scan_table split: if_splits)

lemma setAddress_index:
  "curModelIndex (setAddress s a) = -1
   \<or> (0 \<le> curModelIndex (setAddress s a) \<and> curModelIndex (setAddress s a) < 5)"
  by (simp add: setAddress_def scan_table Let_def)

text \<open>
  C8. After \<^verbatim>\<open>setAddress\<close> the stored address is the given one, whatever the lookup
  finds. The session is resolved if and only if the family code of the address is the
  code of an entry of the registry, and then the index names an entry with that code. If
  no entry has the code, the index is \<open>-1\<close>, whatever model the session had before.
\<close>

theorem setAddress_stores_and_resolves:
  "addr (setAddress s a) = a
   \<and> (resolved (setAddress s a) \<longleftrightarrow> (\<exists>m \<in> set registry. id_m m = family a))
   \<and> ((\<forall>m \<in> set registry. id_m m \<noteq> family a) \<longrightarrow> curModelIndex (setAddress s a) = -1)
   \<and> (resolved (setAddress s a) \<longrightarrow>
        id_m (chip_model (curModelIndex (setAddress s a))) = family a)"
  unfolding in_registry_iff not_in_registry_iff resolved_def
  by (simp add: setAddress_def scan_table Let_def chip_model_def chip_model_list_def)

theorem setAddress_stores_and_resolves_witness:
  "addr (setAddress static_storage ds2431_rom) = ds2431_rom
   \<and> resolved (setAddress static_storage ds2431_rom)
   \<and> (\<exists>m \<in> set registry. id_m m = family ds2431_rom)
   \<and> id_m (chip_model (curModelIndex (setAddress static_storage ds2431_rom))) = 0x2D
   \<and> addr (setAddress (setAddress static_storage ds2431_rom) unknown_rom) = unknown_rom
   \<and> family unknown_rom \<notin> id_m ` set registry
   \<and> curModelIndex (setAddress (setAddress static_storage ds2431_rom) unknown_rom) = -1
   \<and> \<not> resolved (setAddress (setAddress static_storage ds2431_rom) unknown_rom)"
proof -
  have known: "\<exists>m \<in> set registry. id_m m = family ds2431_rom"
    by (simp add: in_registry_iff ds2431_rom_def)
  have unknown: "\<forall>m \<in> set registry. id_m m \<noteq> family unknown_rom"
    by (simp add: not_in_registry_iff unknown_rom_def)
  from unknown have absent: "family unknown_rom \<notin> id_m ` set registry"
    by (auto simp: image_iff)
  have first: "addr (setAddress static_storage ds2431_rom) = ds2431_rom
      \<and> resolved (setAddress static_storage ds2431_rom)
      \<and> id_m (chip_model (curModelIndex (setAddress static_storage ds2431_rom))) = 0x2D"
    using known setAddress_stores_and_resolves [of static_storage ds2431_rom]
    by (simp add: ds2431_rom_def)
  have second:
    "addr (setAddress (setAddress static_storage ds2431_rom) unknown_rom) = unknown_rom
      \<and> curModelIndex (setAddress (setAddress static_storage ds2431_rom) unknown_rom) = -1
      \<and> \<not> resolved (setAddress (setAddress static_storage ds2431_rom) unknown_rom)"
    using unknown
      setAddress_stores_and_resolves [of "setAddress static_storage ds2431_rom" unknown_rom]
    by blast
  from known absent first second show ?thesis
    by blast
qed

section \<open>Construction\<close>

lemma DallasEPROM_keeps_index:
  "curModelIndex (DallasEPROM storage) = curModelIndex storage"
  "curModelIndex (fst (DallasEPROM_pin storage pin h)) = curModelIndex storage"
  by (simp_all add: DallasEPROM_def DallasEPROM_pin_def)

text \<open>
  C9. The claim: right after construction the session is unresolved, \<^verbatim>\<open>getDeviceName\<close>
  returns \<^verbatim>\<open>NULL\<close> and every page operation returns \<open>INVALID_PAGE\<close>. The constructors
  do not assign \<^verbatim>\<open>_curModelIndex\<close> (\<open>DallasEPROM_keeps_index\<close>). In an object with
  static storage duration the member is \<open>0\<close>, the index of the DS2502: the device name is
  \<open>DS2502\<close>, page \<open>0\<close> is valid, and the page operations go on to the connectivity check.
\<close>

theorem fresh_static_instance_is_resolved:
  "curModelIndex (DallasEPROM static_storage) = 0
   \<and> getDeviceName (DallasEPROM static_storage) = Some ''DS2502''
   \<and> isPageValid (DallasEPROM static_storage) 0
   \<and> fst (readPage (DallasEPROM static_storage) empty_bus [] 0) = DEVICE_DISCONNECTED
   \<and> fst (writePage (DallasEPROM static_storage) empty_bus [] 0) = DEVICE_DISCONNECTED
   \<and> fst (lockPage (DallasEPROM static_storage) empty_bus 0) = DEVICE_DISCONNECTED"
  by code_simp

section \<open>Searching the bus\<close>





lemma search_loop_index:
  "curModelIndex (fst (snd (search_loop s h))) = curModelIndex s
   \<or> (0 \<le> curModelIndex (fst (snd (search_loop s h)))
      \<and> curModelIndex (fst (snd (search_loop s h))) < 5)"
proof (induction "found h" arbitrary: s h)
  case Nil
  then have "found h = []" by simp
  then show ?case
    by (simp add: search_loop.simps [of s h] wire_search_Nil)
next
  case (Cons x xs)
  then have f: "found h = x # xs" by simp
  show ?case
  proof (cases x)
    case None
    with f show ?thesis
      by (simp add: search_loop.simps [of s h] wire_search_Cons)
  next
    case (Some a)
    let ?h1 = "emit Search (h\<lparr>found := xs\<rparr>)"
    let ?s1 = "s\<lparr>addr := a\<rparr>"
    from Some f have w: "wire_search h = (Some a, ?h1)"
      by (simp add: wire_search_Cons)
    show ?thesis
    proof (cases "scan (family a) chip_model_list 0")
      case None
      then have step: "search_loop s h = search_loop ?s1 ?h1"
        by (simp add: search_loop.simps [of s h] w)
      have "xs = found ?h1" by simp
      then have "curModelIndex (fst (snd (search_loop ?s1 ?h1))) = curModelIndex ?s1
         \<or> (0 \<le> curModelIndex (fst (snd (search_loop ?s1 ?h1)))
            \<and> curModelIndex (fst (snd (search_loop ?s1 ?h1))) < 5)"
        by (rule Cons.hyps(1))
      with step show ?thesis by simp
    next
      case (Some i)
      then have "search_loop s h = (True, ?s1\<lparr>curModelIndex := i\<rparr>, ?h1)"
        by (simp add: search_loop.simps [of s h] w)
      with scan_index [OF Some] show ?thesis by simp
    qed
  qed
qed

lemma search_index:
  "curModelIndex (fst (snd (search s h))) = -1
   \<or> (0 \<le> curModelIndex (fst (snd (search s h)))
      \<and> curModelIndex (fst (snd (search s h))) < 5)"
  using search_loop_index [of "s\<lparr>curModelIndex := -1\<rparr>" "wire_reset_search (snd (wire_reset h))"]
  by (simp add: search_def Let_def split_beta)




section \<open>The page validator\<close>

lemma isPageValid_iff:
  "isPageValid s page \<longleftrightarrow> resolved s \<and> page < pages (chip_model (curModelIndex s))"
  by (simp add: isPageValid_def resolved_def)

lemma readPage_invalid:
  "\<not> isPageValid s page \<Longrightarrow> readPage s h data page = (INVALID_PAGE, data, h)"
  by (simp add: readPage_def)

lemma writePage_invalid:
  "\<not> isPageValid s page \<Longrightarrow> writePage s h data page = (INVALID_PAGE, h)"
  by (simp add: writePage_def)

lemma lockPage_invalid:
  "\<not> isPageValid s page \<Longrightarrow> lockPage s h page = (INVALID_PAGE, h)"
  by (simp add: lockPage_def)

lemma isPageLocked_invalid:
  "\<not> isPageValid s page \<Longrightarrow> isPageLocked s h page = (True, h)"
  by (simp add: isPageLocked_def bool_of_int_def INVALID_PAGE_def)

lemma isPageLocked_disconnected:
  "isPageValid s page \<Longrightarrow> \<not> fst (isConnected s h) \<Longrightarrow> fst (isPageLocked s h page) = True"
  by (simp add: isPageLocked_def Let_def split_beta bool_of_int_def DEVICE_DISCONNECTED_def)

text \<open>
  C1. The claim: the validator accepts a page if and only if a model is resolved and
  \<open>0 \<le> page < pageCount\<close>, and the four page operations return \<open>INVALID_PAGE\<close> for
  every page it rejects, so for every negative page. The code tests the upper bound only
  (\<open>isPageValid_iff\<close>): on a session resolved to the DS2502 the page \<open>-1\<close> passes the
  validator, \<^verbatim>\<open>readPage\<close>, \<^verbatim>\<open>writePage\<close> and \<^verbatim>\<open>lockPage\<close> go on to the
  connectivity check, and on a bus with a DS2431 \<^verbatim>\<open>readPage\<close> of page \<open>-1\<close> returns
  \<open>0\<close>. For the page equal to the page count \<^verbatim>\<open>isPageLocked\<close> answers \<open>true\<close>, the
  conversion of \<open>INVALID_PAGE\<close> to \<^verbatim>\<open>bool\<close>.
\<close>

theorem negative_page_passes_validation:
  "isPageValid (session_of ds2502_rom) (-1)
   \<and> fst (readPage (session_of ds2502_rom) empty_bus [] (-1)) = DEVICE_DISCONNECTED
   \<and> fst (writePage (session_of ds2502_rom) empty_bus [] (-1)) = DEVICE_DISCONNECTED
   \<and> fst (lockPage (session_of ds2502_rom) empty_bus (-1)) = DEVICE_DISCONNECTED
   \<and> fst (readPage (session_of ds2431_rom) (bus_with ds2431_rom []) [] (-1)) = 0
   \<and> \<not> isPageValid (session_of ds2502_rom) 4
   \<and> fst (isPageLocked (session_of ds2502_rom) empty_bus 4) = True"
  by code_simp

text \<open>
  C2. The claim: when its preamble or its status read fails, \<^verbatim>\<open>isPageLocked\<close> returns
  the negative status code, which a caller can tell from \<open>true\<close> and \<open>false\<close>. The
  function is declared \<^verbatim>\<open>bool\<close>: each of \<open>INVALID_PAGE\<close>, \<open>DEVICE_DISCONNECTED\<close> and
  \<open>CRC_MISMATCH\<close> is converted to \<open>true\<close> (\<open>isPageLocked_invalid\<close>,
  \<open>isPageLocked_disconnected\<close>). An unresolved session, a bus without the device, and a
  DS2502 that answers a wrong CRC all give \<open>true\<close>, the answer for a locked page of a
  DS2431.
\<close>

theorem isPageLocked_errors_are_true:
  "fst (isPageLocked (session_of unknown_rom) empty_bus 0) = True
   \<and> fst (isPageLocked (session_of ds2431_rom) empty_bus 0) = True
   \<and> dallas_crc8 [READSTATUS, 0x00, 0x00] = 0x9C
   \<and> fst (isPageLocked (session_of ds2502_rom) (bus_with ds2502_rom [0x00]) 0) = True
   \<and> fst (isPageLocked (session_of ds2431_rom) (bus_with ds2431_rom [0x55]) 0) = True
   \<and> bool_of_int INVALID_PAGE = True
   \<and> bool_of_int DEVICE_DISCONNECTED = True
   \<and> bool_of_int CRC_MISMATCH = True"
  by code_simp

section \<open>Reading a page\<close>

lemma read_memory_trace:
  "isEPROMDevice s \<Longrightarrow>
    \<exists>n. trace (snd (snd (read_memory s h data a))) =
      trace h
      @ [Reset, Select (addr s), Write READMEMORY, Write (ucast a), Write (ucast (drop_bit 8 a))]
      @ replicate n Read"
proof -
  assume e: "isEPROMDevice s"
  let ?h1 = "wire_write (ucast (drop_bit 8 a))
               (wire_write (ucast a) (wire_write READMEMORY (reset_select s h)))"
  show ?thesis
  proof (cases "crc8 h [READMEMORY, ucast a, ucast (drop_bit 8 a)] \<noteq> fst (wire_read ?h1)")
    case True
    with e have "trace (snd (snd (read_memory s h data a))) =
      trace h
      @ [Reset, Select (addr s), Write READMEMORY, Write (ucast a), Write (ucast (drop_bit 8 a))]
      @ replicate 1 Read"
      by (simp add: read_memory_def Let_def split_beta)
    then show ?thesis by (rule exI)
  next
    case False
    with e have "trace (snd (snd (read_memory s h data a))) =
      trace h
      @ [Reset, Select (addr s), Write READMEMORY, Write (ucast a), Write (ucast (drop_bit 8 a))]
      @ replicate 33 Read"
      by (simp add: read_memory_def Let_def split_beta replicate_33)
    then show ?thesis by (rule exI)
  qed
qed

text \<open>
  C5. On an EPROM, for a page that passes the validator and a connected device that
  answers the CRC of the status command and then the redirect byte: \<^verbatim>\<open>readPage\<close>
  sends the status command \<open>{READSTATUS, page + 1, 0}\<close>, reads the CRC and the redirect
  byte, and then sends the memory-read command. If the redirect byte is not \<open>0xFF\<close>
  the address bytes of that command are the redirect byte and \<open>0\<close>: the address is the
  value of the redirect byte. If it is \<open>0xFF\<close> they are the low and the high byte of
  \<open>page * 32\<close>. After the command there are only reads.
\<close>

theorem readPage_redirect_address:
  assumes eprom: "isEPROMDevice s"
    and valid: "isPageValid s page"
    and conn: "fst (isConnected s h)"
    and answers: "rx h = crc8 h [READSTATUS, word_of_int (page + 1), 0x00] # redirect # rest"
  shows "\<exists>n. trace (snd (snd (readPage s h data page))) =
      trace (snd (isConnected s h))
      @ [Reset, Select (addr s), Write READSTATUS, Write (word_of_int (page + 1)), Write 0x00,
         Read, Read]
      @ [Reset, Select (addr s), Write READMEMORY,
         Write (if redirect \<noteq> 0xFF then redirect
                else ucast (word_of_int (page * 32) :: uint)),
         Write (if redirect \<noteq> 0xFF then 0x00
                else ucast (drop_bit 8 (word_of_int (page * 32) :: uint)))]
      @ replicate n Read"
proof -
  let ?h1 = "snd (isConnected s h)"
  let ?a = "word_of_int (page * 32) :: uint"
  let ?a' = "if redirect \<noteq> 0xFF then ucast redirect else ?a"
  let ?h2 = "wire_write 0x00
               (wire_write (word_of_int (page + 1))
                 (wire_write READSTATUS (reset_select s ?h1)))"
  let ?h3 = "snd (wire_read (snd (wire_read ?h2)))"
  from answers have r1: "fst (wire_read ?h2) = crc8 h [READSTATUS, word_of_int (page + 1), 0x00]"
    by (simp add: wire_read_fst)
  from answers have r2: "fst (wire_read (snd (wire_read ?h2))) = redirect"
    by (simp add: wire_read_fst)
  from eprom r1 r2 have red: "read_redirect s ?h1 page ?a = (Inr ?a', ?h3)"
    by (simp add: read_redirect_def Let_def split_beta)
  from valid conn red have rp: "readPage s h data page = read_memory s ?h3 data ?a'"
    by (simp add: readPage_def Let_def split_beta)
  have t3: "trace ?h3 = trace ?h1
      @ [Reset, Select (addr s), Write READSTATUS, Write (word_of_int (page + 1)), Write 0x00,
         Read, Read]"
    by simp
  from read_memory_trace [OF eprom, of ?h3 data ?a'] obtain n where
    "trace (snd (snd (read_memory s ?h3 data ?a'))) =
      trace ?h3
      @ [Reset, Select (addr s), Write READMEMORY, Write (ucast ?a'),
         Write (ucast (drop_bit 8 ?a'))]
      @ replicate n Read"
    by blast
  with rp t3 have "trace (snd (snd (readPage s h data page))) =
      trace (snd (isConnected s h))
      @ [Reset, Select (addr s), Write READSTATUS, Write (word_of_int (page + 1)), Write 0x00,
         Read, Read]
      @ [Reset, Select (addr s), Write READMEMORY,
         Write (if redirect \<noteq> 0xFF then redirect
                else ucast (word_of_int (page * 32) :: uint)),
         Write (if redirect \<noteq> 0xFF then 0x00
                else ucast (drop_bit 8 (word_of_int (page * 32) :: uint)))]
      @ replicate n Read"
    by (simp add: ucast_byte_uint_lo ucast_byte_uint_hi)
  then show ?thesis by (rule exI)
qed

theorem readPage_redirect_address_witness:
  "isEPROMDevice (session_of ds2502_rom)
   \<and> isPageValid (session_of ds2502_rom) 2
   \<and> fst (isConnected (session_of ds2502_rom) (bus_with ds2502_rom [0xC9, 0x07, 0xE3]))
   \<and> rx (bus_with ds2502_rom [0xC9, 0x07, 0xE3])
       = crc8 (bus_with ds2502_rom [0xC9, 0x07, 0xE3]) [READSTATUS, word_of_int (2 + 1), 0x00]
         # 0x07 # [0xE3]
   \<and> (\<exists>n. trace (snd (snd (readPage (session_of ds2502_rom)
                                (bus_with ds2502_rom [0xC9, 0x07, 0xE3]) [] 2))) =
         trace (snd (isConnected (session_of ds2502_rom)
                       (bus_with ds2502_rom [0xC9, 0x07, 0xE3])))
         @ [Reset, Select (addr (session_of ds2502_rom)), Write READSTATUS,
            Write (word_of_int (2 + 1)), Write 0x00, Read, Read]
         @ [Reset, Select (addr (session_of ds2502_rom)), Write READMEMORY,
            Write (if (0x07 :: byte) \<noteq> 0xFF then 0x07
                   else ucast (word_of_int (2 * 32) :: uint)),
            Write (if (0x07 :: byte) \<noteq> 0xFF then 0x00
                   else ucast (drop_bit 8 (word_of_int (2 * 32) :: uint)))]
         @ replicate n Read)
   \<and> fst (readPage (session_of ds2502_rom) (bus_with ds2502_rom [0xC9, 0x07, 0xE3]) [] 2) = 0
   \<and> take 16 (trace (snd (snd (readPage (session_of ds2502_rom)
                                   (bus_with ds2502_rom [0xC9, 0x07, 0xE3]) [] 2))))
       = [Reset, ResetSearch, Search,
          Reset, Select ds2502_rom, Write 0xAA, Write 0x03, Write 0x00, Read, Read,
          Reset, Select ds2502_rom, Write 0xF0, Write 0x07, Write 0x00, Read]
   \<and> fst (readPage (session_of ds2502_rom) (bus_with ds2502_rom [0xC9, 0xFF, 0x16]) [] 2) = 0
   \<and> take 16 (trace (snd (snd (readPage (session_of ds2502_rom)
                                   (bus_with ds2502_rom [0xC9, 0xFF, 0x16]) [] 2))))
       = [Reset, ResetSearch, Search,
          Reset, Select ds2502_rom, Write 0xAA, Write 0x03, Write 0x00, Read, Read,
          Reset, Select ds2502_rom, Write 0xF0, Write 0x40, Write 0x00, Read]"
proof -
  have eprom: "isEPROMDevice (session_of ds2502_rom)"
    by code_simp
  have valid: "isPageValid (session_of ds2502_rom) 2"
    by code_simp
  have conn: "fst (isConnected (session_of ds2502_rom) (bus_with ds2502_rom [0xC9, 0x07, 0xE3]))"
    by code_simp
  have answers: "rx (bus_with ds2502_rom [0xC9, 0x07, 0xE3])
       = crc8 (bus_with ds2502_rom [0xC9, 0x07, 0xE3]) [READSTATUS, word_of_int (2 + 1), 0x00]
         # 0x07 # [0xE3]"
    by code_simp
  have run: "fst (readPage (session_of ds2502_rom) (bus_with ds2502_rom [0xC9, 0x07, 0xE3]) [] 2)
      = 0"
    "take 16 (trace (snd (snd (readPage (session_of ds2502_rom)
                                   (bus_with ds2502_rom [0xC9, 0x07, 0xE3]) [] 2))))
       = [Reset, ResetSearch, Search,
          Reset, Select ds2502_rom, Write 0xAA, Write 0x03, Write 0x00, Read, Read,
          Reset, Select ds2502_rom, Write 0xF0, Write 0x07, Write 0x00, Read]"
    "fst (readPage (session_of ds2502_rom) (bus_with ds2502_rom [0xC9, 0xFF, 0x16]) [] 2) = 0"
    "take 16 (trace (snd (snd (readPage (session_of ds2502_rom)
                                   (bus_with ds2502_rom [0xC9, 0xFF, 0x16]) [] 2))))
       = [Reset, ResetSearch, Search,
          Reset, Select ds2502_rom, Write 0xAA, Write 0x03, Write 0x00, Read, Read,
          Reset, Select ds2502_rom, Write 0xF0, Write 0x40, Write 0x00, Read]"
    by code_simp+
  from readPage_redirect_address [OF eprom valid conn answers, of "[]"]
    eprom valid conn answers run
  show ?thesis by blast
qed

section \<open>The scratchpad\<close>

lemma verify_echo_fst: "fst (verify_echo ds h) \<longleftrightarrow> upcoming (length ds) (rx h) = ds"
proof (induction ds arbitrary: h)
  case Nil
  show ?case by simp
next
  case (Cons d ds)
  show ?case
    by (auto simp: split_beta Cons.IH upcoming_Suc wire_read_fst)
qed

lemma verify_echo_reads:
  "\<not> fst (verify_echo ds h) \<Longrightarrow>
     \<exists>k. 0 < k \<and> k \<le> length ds \<and> trace (snd (verify_echo ds h)) = trace h @ replicate k Read"
proof (induction ds arbitrary: h)
  case Nil
  then show ?case by simp
next
  case (Cons d ds)
  show ?case
  proof (cases "fst (wire_read h) \<noteq> d")
    case True
    then have "trace (snd (verify_echo (d # ds) h)) = trace h @ replicate 1 Read"
      by (simp add: split_beta)
    then show ?thesis by (intro exI [of _ 1]) simp
  next
    case False
    then have eq: "verify_echo (d # ds) h = verify_echo ds (snd (wire_read h))"
      by (simp add: split_beta)
    with Cons.prems have "\<not> fst (verify_echo ds (snd (wire_read h)))" by simp
    from Cons.IH [OF this] obtain k where
      k: "0 < k" "k \<le> length ds"
        "trace (snd (verify_echo ds (snd (wire_read h)))) = trace (snd (wire_read h)) @ replicate k Read"
      by blast
    from k eq have "trace (snd (verify_echo (d # ds) h)) = trace h @ replicate (Suc k) Read"
      by (simp add: replicate_app_Cons_same)
    with k show ?thesis by (intro exI [of _ "Suc k"]) simp
  qed
qed

lemma verify_echo_all:
  "fst (verify_echo ds h) \<Longrightarrow>
     trace (snd (verify_echo ds h)) = trace h @ replicate (length ds) Read"
proof (induction ds arbitrary: h)
  case Nil
  show ?case by simp
next
  case (Cons d ds)
  from Cons.prems have same: "fst (wire_read h) = d"
    by (auto simp: split_beta split: if_splits)
  then have eq: "verify_echo (d # ds) h = verify_echo ds (snd (wire_read h))"
    by (simp add: split_beta)
  with Cons.prems have "fst (verify_echo ds (snd (wire_read h)))" by simp
  from Cons.IH [OF this] eq show ?case
    by (simp add: replicate_app_Cons_same)
qed

lemma scratchWrite_events:
  "(fst (scratchWrite s h data len address) = 0
      \<or> fst (scratchWrite s h data len address) = COPY_FAILURE)
     \<and> trace (snd (scratchWrite s h data len address)) =
         trace h @ commit_events s (take (nat len) data) address (upcoming 3 (rx h))
   \<or> fst (scratchWrite s h data len address) = BAD_INTEGRITY
     \<and> (\<exists>k. 0 < k \<and> k \<le> length (take (nat len) data)
          \<and> trace (snd (scratchWrite s h data len address)) =
              trace h @ aborted_events s (take (nat len) data) address k)"
proof (cases "name (chip_model (curModelIndex s)) = Some ''DS2430''")
  case True
  then show ?thesis
    by (simp add: scratchWrite_def scratch_commit_def Let_def commit_events_def
        scratch_write_events_def)
next
  case False
  let ?sent = "take (nat len) data"
  let ?h1 = "wire_write (ucast (drop_bit 8 address))
               (wire_write (ucast address) (wire_write WRITEMEMORY (reset_select s h)))"
  let ?h2 = "wire_write_all ?sent ?h1"
  let ?h3 = "wire_write READSTATUS (reset_select s ?h2)"
  let ?h4 = "snd (wire_read_bytes 3 ?h3)"
  let ?v = "verify_echo ?sent ?h4"
  have t4: "trace ?h4 = trace h @ scratch_write_events s ?sent address
              @ [Reset, Select (addr s), Write READSTATUS] @ replicate 3 Read"
    by (simp add: scratch_write_events_def)
  have auth: "fst (wire_read_bytes 3 ?h3) = upcoming 3 (rx h)"
    by simp
  show ?thesis
  proof (cases "fst ?v")
    case bad: False
    from verify_echo_reads [OF bad] obtain k where
      k: "0 < k" "k \<le> length ?sent" "trace (snd ?v) = trace ?h4 @ replicate k Read"
      by blast
    from False bad have sw: "scratchWrite s h data len address = (BAD_INTEGRITY, snd ?v)"
      by (simp add: scratchWrite_def scratch_commit_def Let_def split_beta)
    from k t4 have "trace (snd ?v) = trace h @ aborted_events s ?sent address k"
      by (simp add: aborted_events_def replicate_add)
    with sw k show ?thesis by auto
  next
    case good: True
    let ?a = "upcoming 3 (rx h)"
    let ?h5 = "wire_depower (delay 10
                 (wire_write_power (?a ! 2) (wire_write (?a ! 1) (wire_write (?a ! 0)
                    (wire_write WRITESTATUS (reset_select s (snd ?v)))))))"
    from verify_echo_all [OF good] t4
    have tv: "trace (snd ?v) = trace h @ scratch_write_events s ?sent address
              @ [Reset, Select (addr s), Write READSTATUS] @ replicate (3 + length ?sent) Read"
      by (simp add: replicate_add)
    from False good auth have sw: "scratchWrite s h data len address =
        (if fst (wire_read ?h5) \<noteq> 0xAA then COPY_FAILURE else 0, snd (wire_read ?h5))"
      by (simp add: scratchWrite_def scratch_commit_def Let_def split_beta)
    from False tv have "trace (snd (wire_read ?h5)) = trace h @ commit_events s ?sent address ?a"
      by (simp add: commit_events_def)
    with sw show ?thesis by auto
  qed
qed


lemma scratchWrite_chunk_events:
  "(fst (scratchWrite s h c (int (length c)) offset) = 0
      \<or> fst (scratchWrite s h c (int (length c)) offset) = COPY_FAILURE)
     \<and> (\<exists>a. trace (snd (scratchWrite s h c (int (length c)) offset)) =
         trace h @ commit_events s c offset a)
   \<or> fst (scratchWrite s h c (int (length c)) offset) = BAD_INTEGRITY
     \<and> (\<exists>k. 0 < k \<and> k \<le> length c
          \<and> trace (snd (scratchWrite s h c (int (length c)) offset)) =
              trace h @ aborted_events s c offset k)"
  using scratchWrite_events [of s h c "int (length c)" offset] by auto

text \<open>
  C7. On a model other than the DS2430, if the bytes that the scratchpad echoes after
  the three auth bytes are not the bytes sent, \<^verbatim>\<open>scratchWrite\<close> returns
  \<open>BAD_INTEGRITY\<close>, and all it did on the bus is: the write to the scratchpad, the
  command \<open>READSTATUS\<close>, the three reads of the auth bytes and at least one and at most
  \<open>len\<close> reads of the echo. The commit command is not among them: nothing is written
  after \<open>READSTATUS\<close>.
\<close>

theorem scratchWrite_bad_integrity:
  assumes other: "name (chip_model (curModelIndex s)) \<noteq> Some ''DS2430''"
    and differs: "upcoming (length (take (nat len) data)) (drop 3 (rx h)) \<noteq> take (nat len) data"
  shows "fst (scratchWrite s h data len address) = BAD_INTEGRITY
    \<and> (\<exists>k. 0 < k \<and> k \<le> length (take (nat len) data)
          \<and> trace (snd (scratchWrite s h data len address)) =
              trace h
              @ [Reset, Select (addr s), Write WRITEMEMORY, Write (ucast address),
                 Write (ucast (drop_bit 8 address))]
              @ map Write (take (nat len) data)
              @ [Reset, Select (addr s), Write READSTATUS, Read, Read, Read]
              @ replicate k Read)"
proof -
  let ?sent = "take (nat len) data"
  let ?h1 = "wire_write (ucast (drop_bit 8 address))
               (wire_write (ucast address) (wire_write WRITEMEMORY (reset_select s h)))"
  let ?h2 = "wire_write_all ?sent ?h1"
  let ?h3 = "wire_write READSTATUS (reset_select s ?h2)"
  let ?h4 = "snd (wire_read_bytes 3 ?h3)"
  have rx4: "rx ?h4 = drop 3 (rx h)" by simp
  have tr4: "trace ?h4 = trace h
              @ [Reset, Select (addr s), Write WRITEMEMORY, Write (ucast address),
                 Write (ucast (drop_bit 8 address))]
              @ map Write ?sent
              @ [Reset, Select (addr s), Write READSTATUS, Read, Read, Read]"
    by (simp add: replicate_3)
  from differs rx4 have nv: "\<not> fst (verify_echo ?sent ?h4)"
    by (simp add: verify_echo_fst)
  from verify_echo_reads [OF nv] obtain k where
    k: "0 < k" "k \<le> length ?sent"
       "trace (snd (verify_echo ?sent ?h4)) = trace ?h4 @ replicate k Read"
    by blast
  from other nv have commit:
    "scratch_commit s ?h2 ?sent = (Some BAD_INTEGRITY, snd (verify_echo ?sent ?h4))"
    by (simp add: scratch_commit_def Let_def split_beta)
  then have sw: "scratchWrite s h data len address
                  = (BAD_INTEGRITY, snd (verify_echo ?sent ?h4))"
    by (simp add: scratchWrite_def Let_def)
  from sw k tr4 show ?thesis
    by (intro conjI exI [of _ k]) simp_all
qed

theorem scratchWrite_bad_integrity_witness:
  "name (chip_model (curModelIndex (session_of ds2431_rom))) \<noteq> Some ''DS2430''
   \<and> upcoming (length (take (nat 8) [1, 2, 3, 4, 5, 6, 7, 8 :: byte]))
         (drop 3 (rx (bus_with ds2431_rom [0xA0, 0xA1, 0xA2, 1, 2, 9])))
       \<noteq> take (nat 8) [1, 2, 3, 4, 5, 6, 7, 8]
   \<and> fst (scratchWrite (session_of ds2431_rom)
            (bus_with ds2431_rom [0xA0, 0xA1, 0xA2, 1, 2, 9])
            [1, 2, 3, 4, 5, 6, 7, 8] 8 0x20) = BAD_INTEGRITY
   \<and> trace (snd (scratchWrite (session_of ds2431_rom)
            (bus_with ds2431_rom [0xA0, 0xA1, 0xA2, 1, 2, 9])
            [1, 2, 3, 4, 5, 6, 7, 8] 8 0x20))
       = [Reset, Select ds2431_rom, Write 0x0F, Write 0x20, Write 0x00,
          Write 1, Write 2, Write 3, Write 4, Write 5, Write 6, Write 7, Write 8,
          Reset, Select ds2431_rom, Write 0xAA, Read, Read, Read,
          Read, Read, Read]"
proof -
  have other: "name (chip_model (curModelIndex (session_of ds2431_rom))) \<noteq> Some ''DS2430''"
    by code_simp
  have differs:
    "upcoming (length (take (nat 8) [1, 2, 3, 4, 5, 6, 7, 8 :: byte]))
       (drop 3 (rx (bus_with ds2431_rom [0xA0, 0xA1, 0xA2, 1, 2, 9])))
     \<noteq> take (nat 8) [1, 2, 3, 4, 5, 6, 7, 8]"
    by code_simp
  have events:
    "trace (snd (scratchWrite (session_of ds2431_rom)
            (bus_with ds2431_rom [0xA0, 0xA1, 0xA2, 1, 2, 9])
            [1, 2, 3, 4, 5, 6, 7, 8] 8 0x20))
       = [Reset, Select ds2431_rom, Write 0x0F, Write 0x20, Write 0x00,
          Write 1, Write 2, Write 3, Write 4, Write 5, Write 6, Write 7, Write 8,
          Reset, Select ds2431_rom, Write 0xAA, Read, Read, Read,
          Read, Read, Read]"
    by code_simp
  from scratchWrite_bad_integrity [OF other differs, of "0x20"] other differs events
  show ?thesis by blast
qed

section \<open>Writing a page of an EEPROM\<close>

lemma scratchWrite_take:
  "scratchWrite s h (take (nat len) data) len address = scratchWrite s h data len address"
  by (simp add: scratchWrite_def)

lemma scratchWrite_chunk:
  "8 \<le> length xs \<Longrightarrow>
     scratchWrite s h (take 8 xs) (int (length (take 8 xs))) a = scratchWrite s h xs 8 a"
  using scratchWrite_take [of s h 8 xs a] by (simp add: min_def)

lemma write_chunks_unrolled:
  "write_chunks s h data a 0 =
    (case scratchWrite s h (drop 0 data) 8 (a + 0) of
       (st0, h0) \<Rightarrow> if st0 \<noteq> 0 then (st0, h0) else
     (case scratchWrite s h0 (drop 8 data) 8 (a + 8) of
       (st1, h1) \<Rightarrow> if st1 \<noteq> 0 then (st1, h1) else
     (case scratchWrite s h1 (drop 16 data) 8 (a + 16) of
       (st2, h2) \<Rightarrow> if st2 \<noteq> 0 then (st2, h2) else
     (case scratchWrite s h2 (drop 24 data) 8 (a + 24) of
       (st3, h3) \<Rightarrow> if st3 \<noteq> 0 then (st3, h3) else (0, h3)))))"
proof -
  have last: "write_chunks s h' data a 32 = (0, h')" for h'
    by (simp add: write_chunks.simps [of s h' data a 32])
  have w24: "write_chunks s h' data a 24 =
      (case scratchWrite s h' (drop 24 data) 8 (a + 24) of
         (st, h1) \<Rightarrow> if st \<noteq> 0 then (st, h1) else (0, h1))" for h'
    by (simp add: write_chunks.simps [of s h' data a 24] last cong: if_cong prod.case_cong)
  have w16: "write_chunks s h' data a 16 =
      (case scratchWrite s h' (drop 16 data) 8 (a + 16) of
         (st, h1) \<Rightarrow> if st \<noteq> 0 then (st, h1) else write_chunks s h1 data a 24)" for h'
    by (simp add: write_chunks.simps [of s h' data a 16] cong: if_cong prod.case_cong)
  have w8: "write_chunks s h' data a 8 =
      (case scratchWrite s h' (drop 8 data) 8 (a + 8) of
         (st, h1) \<Rightarrow> if st \<noteq> 0 then (st, h1) else write_chunks s h1 data a 16)" for h'
    by (simp add: write_chunks.simps [of s h' data a 8] cong: if_cong prod.case_cong)
  have w0: "write_chunks s h data a 0 =
      (case scratchWrite s h (drop 0 data) 8 (a + 0) of
         (st, h1) \<Rightarrow> if st \<noteq> 0 then (st, h1) else write_chunks s h1 data a 8)"
    by (simp add: write_chunks.simps [of s h data a 0] cong: if_cong prod.case_cong)
  show ?thesis
    by (simp only: w0 w8 w16 w24)
qed

lemma commits_zero:
  "fst (commits s h ((chunk, offset) # rest)) = 0 \<longleftrightarrow>
     fst (scratchWrite s h chunk (int (length chunk)) offset) = 0
     \<and> fst (commits s (snd (scratchWrite s h chunk (int (length chunk)) offset)) rest) = 0"
  by (simp add: split_beta)

lemma writePage_is_commits:
  assumes eeprom: "\<not> isEPROMDevice s"
    and valid: "isPageValid s page"
    and conn: "fst (isConnected s h)"
    and len: "length data = 32"
  shows "writePage s h data page =
      commits s (snd (isConnected s h))
        [(take 8 data, word_of_int (page * 32 + 0)),
         (take 8 (drop 8 data), word_of_int (page * 32 + 8)),
         (take 8 (drop 16 data), word_of_int (page * 32 + 16)),
         (take 8 (drop 24 data), word_of_int (page * 32 + 24))]
    \<and> length (take 8 data) = 8 \<and> length (take 8 (drop 8 data)) = 8
    \<and> length (take 8 (drop 16 data)) = 8 \<and> length (take 8 (drop 24 data)) = 8"
proof -
  let ?a = "word_of_int (page * 32) :: uint"
  let ?h1 = "snd (isConnected s h)"
  from eeprom valid conn have wp: "writePage s h data page = write_chunks s ?h1 data ?a 0"
    by (simp add: writePage_def Let_def split_beta)
  have offs: "(word_of_int (page * 32 + 8) :: uint) = ?a + 8"
    "(word_of_int (page * 32 + 16) :: uint) = ?a + 16"
    "(word_of_int (page * 32 + 24) :: uint) = ?a + 24"
    by simp_all
  from len have chunks:
    "scratchWrite s h' (take 8 data) (int (length (take 8 data))) a'
       = scratchWrite s h' (drop 0 data) 8 a'"
    "scratchWrite s h' (take 8 (drop 8 data)) (int (length (take 8 (drop 8 data)))) a'
       = scratchWrite s h' (drop 8 data) 8 a'"
    "scratchWrite s h' (take 8 (drop 16 data)) (int (length (take 8 (drop 16 data)))) a'
       = scratchWrite s h' (drop 16 data) 8 a'"
    "scratchWrite s h' (take 8 (drop 24 data)) (int (length (take 8 (drop 24 data)))) a'
       = scratchWrite s h' (drop 24 data) 8 a'" for h' a'
    using scratchWrite_chunk [of data s h' a'] scratchWrite_chunk [of "drop 8 data" s h' a']
      scratchWrite_chunk [of "drop 16 data" s h' a'] scratchWrite_chunk [of "drop 24 data" s h' a']
    by simp_all
  have "commits s ?h1
        [(take 8 data, word_of_int (page * 32 + 0)),
         (take 8 (drop 8 data), word_of_int (page * 32 + 8)),
         (take 8 (drop 16 data), word_of_int (page * 32 + 16)),
         (take 8 (drop 24 data), word_of_int (page * 32 + 24))]
      = write_chunks s ?h1 data ?a 0"
    unfolding write_chunks_unrolled commits.simps chunks offs
    by simp
  with wp len show ?thesis by simp
qed

lemma commits_done:
  "fst (commits s h cs) = 0 \<Longrightarrow>
     \<exists>auths. length auths = length cs
       \<and> trace (snd (commits s h cs)) = trace h @ chain_events s cs auths"
proof (induction cs arbitrary: h)
  case Nil
  show ?case by simp
next
  case (Cons co rest)
  obtain c offset where co: "co = (c, offset)" by (cases co)
  let ?r = "scratchWrite s h c (int (length c)) offset"
  from Cons.prems co have z: "fst ?r = 0"
    by (auto simp: split_beta split: if_splits)
  with co have eq: "commits s h (co # rest) = commits s (snd ?r) rest"
    by (simp add: split_beta)
  from z scratchWrite_chunk_events [of s h c offset] obtain a where
    a: "trace (snd ?r) = trace h @ commit_events s c offset a"
    by (auto simp: BAD_INTEGRITY_def)
  from Cons.prems eq have "fst (commits s (snd ?r) rest) = 0" by simp
  from Cons.IH [OF this] obtain auths where
    au: "length auths = length rest"
      "trace (snd (commits s (snd ?r) rest)) = trace (snd ?r) @ chain_events s rest auths"
    by blast
  from au a eq co have "length (a # auths) = length (co # rest)
      \<and> trace (snd (commits s h (co # rest))) = trace h @ chain_events s (co # rest) (a # auths)"
    by simp
  then show ?case by blast
qed

lemma commits_stopped:
  "fst (commits s h cs) \<noteq> 0 \<Longrightarrow>
     \<exists>n auths tail. n < length cs \<and> length auths = n
       \<and> trace (snd (commits s h cs)) = trace h @ chain_events s (take n cs) auths @ tail
       \<and> (fst (commits s h cs) = COPY_FAILURE
            \<and> (\<exists>a. tail = commit_events s (fst (cs ! n)) (snd (cs ! n)) a)
          \<or> fst (commits s h cs) = BAD_INTEGRITY
            \<and> (\<exists>k. 0 < k \<and> k \<le> length (fst (cs ! n))
                 \<and> tail = aborted_events s (fst (cs ! n)) (snd (cs ! n)) k))"
proof (induction cs arbitrary: h)
  case Nil
  then show ?case by simp
next
  case (Cons co rest)
  obtain c offset where co: "co = (c, offset)" by (cases co)
  let ?r = "scratchWrite s h c (int (length c)) offset"
  show ?case
  proof (cases "fst ?r = 0")
    case False
    with co have eq: "commits s h (co # rest) = ?r"
      by (simp add: split_beta)
    from False scratchWrite_chunk_events [of s h c offset] obtain tail where
      t: "trace (snd ?r) = trace h @ tail"
        "fst ?r = COPY_FAILURE \<and> (\<exists>a. tail = commit_events s c offset a)
         \<or> fst ?r = BAD_INTEGRITY
           \<and> (\<exists>k. 0 < k \<and> k \<le> length c \<and> tail = aborted_events s c offset k)"
      by auto
    from t eq co have "0 < length (co # rest) \<and> length ([] :: byte list list) = 0
       \<and> trace (snd (commits s h (co # rest)))
           = trace h @ chain_events s (take 0 (co # rest)) [] @ tail
       \<and> (fst (commits s h (co # rest)) = COPY_FAILURE
            \<and> (\<exists>a. tail = commit_events s (fst ((co # rest) ! 0)) (snd ((co # rest) ! 0)) a)
          \<or> fst (commits s h (co # rest)) = BAD_INTEGRITY
            \<and> (\<exists>k. 0 < k \<and> k \<le> length (fst ((co # rest) ! 0))
                 \<and> tail = aborted_events s (fst ((co # rest) ! 0))
                            (snd ((co # rest) ! 0)) k))"
      by simp
    then show ?thesis by blast
  next
    case True
    with co have eq: "commits s h (co # rest) = commits s (snd ?r) rest"
      by (simp add: split_beta)
    from True scratchWrite_chunk_events [of s h c offset] obtain a where
      a: "trace (snd ?r) = trace h @ commit_events s c offset a"
      by (auto simp: BAD_INTEGRITY_def)
    from Cons.prems eq have "fst (commits s (snd ?r) rest) \<noteq> 0" by simp
    from Cons.IH [OF this] obtain n auths tail where
      ih: "n < length rest" "length auths = n"
        "trace (snd (commits s (snd ?r) rest))
           = trace (snd ?r) @ chain_events s (take n rest) auths @ tail"
        "fst (commits s (snd ?r) rest) = COPY_FAILURE
            \<and> (\<exists>a. tail = commit_events s (fst (rest ! n)) (snd (rest ! n)) a)
          \<or> fst (commits s (snd ?r) rest) = BAD_INTEGRITY
            \<and> (\<exists>k. 0 < k \<and> k \<le> length (fst (rest ! n))
                 \<and> tail = aborted_events s (fst (rest ! n)) (snd (rest ! n)) k)"
      by blast
    from ih a eq co have "Suc n < length (co # rest) \<and> length (a # auths) = Suc n
       \<and> trace (snd (commits s h (co # rest)))
           = trace h @ chain_events s (take (Suc n) (co # rest)) (a # auths) @ tail
       \<and> (fst (commits s h (co # rest)) = COPY_FAILURE
            \<and> (\<exists>a. tail = commit_events s (fst ((co # rest) ! Suc n))
                            (snd ((co # rest) ! Suc n)) a)
          \<or> fst (commits s h (co # rest)) = BAD_INTEGRITY
            \<and> (\<exists>k. 0 < k \<and> k \<le> length (fst ((co # rest) ! Suc n))
                 \<and> tail = aborted_events s (fst ((co # rest) ! Suc n))
                            (snd ((co # rest) ! Suc n)) k))"
      by simp
    then show ?thesis by blast
  qed
qed

text \<open>
  C6. On an EEPROM, for a page that passes the validator, a connected device and a
  buffer of 32 bytes, \<^verbatim>\<open>writePage\<close> is the chain of four scratchpad commits, of the
  bytes 0 to 7, 8 to 15, 16 to 23 and 24 to 31 of the buffer, each of 8 bytes, at the
  offsets \<open>page * 32 + 0\<close>, \<open>+ 8\<close>, \<open>+ 16\<close> and \<open>+ 24\<close>, in this order: a commit that
  returns a status other than zero ends the chain with that status, and the result is
  \<open>0\<close> exactly when all four commits returned \<open>0\<close> (\<open>commits_zero\<close>). On the bus: if
  \<^verbatim>\<open>writePage\<close> returns \<open>0\<close>, what it did after the connectivity check is exactly
  the four commits carried through, each the write of its chunk to the scratchpad at its
  offset followed by its commit command, in this order. If it returns another status,
  that status is \<open>COPY_FAILURE\<close> or \<open>BAD_INTEGRITY\<close>, and what it did is the first \<open>n\<close>
  commits carried through, for some \<open>n\<close> below four, and then the commit of chunk \<open>n\<close>,
  carried through (\<open>COPY_FAILURE\<close>) or given up during the echo (\<open>BAD_INTEGRITY\<close>);
  nothing of a later chunk is sent.
\<close>

theorem writePage_eeprom_four_commits:
  assumes eeprom: "\<not> isEPROMDevice s"
    and valid: "isPageValid s page"
    and conn: "fst (isConnected s h)"
    and len: "length data = 32"
  shows "writePage s h data page =
      commits s (snd (isConnected s h))
        [(take 8 data, word_of_int (page * 32 + 0)),
         (take 8 (drop 8 data), word_of_int (page * 32 + 8)),
         (take 8 (drop 16 data), word_of_int (page * 32 + 16)),
         (take 8 (drop 24 data), word_of_int (page * 32 + 24))]
    \<and> length (take 8 data) = 8 \<and> length (take 8 (drop 8 data)) = 8
    \<and> length (take 8 (drop 16 data)) = 8 \<and> length (take 8 (drop 24 data)) = 8
    \<and> (fst (writePage s h data page) = 0 \<longrightarrow>
         (\<exists>a0 a1 a2 a3.
            trace (snd (writePage s h data page)) =
              trace (snd (isConnected s h))
              @ commit_events s (take 8 data) (word_of_int (page * 32 + 0)) a0
              @ commit_events s (take 8 (drop 8 data)) (word_of_int (page * 32 + 8)) a1
              @ commit_events s (take 8 (drop 16 data)) (word_of_int (page * 32 + 16)) a2
              @ commit_events s (take 8 (drop 24 data)) (word_of_int (page * 32 + 24)) a3))
    \<and> (fst (writePage s h data page) \<noteq> 0 \<longrightarrow>
         (\<exists>n auths tail. n < 4 \<and> length auths = n
            \<and> trace (snd (writePage s h data page)) =
                trace (snd (isConnected s h))
                @ chain_events s (take n (page_chunks data page)) auths @ tail
            \<and> (fst (writePage s h data page) = COPY_FAILURE
                  \<and> (\<exists>a. tail = commit_events s (fst (page_chunks data page ! n))
                                  (snd (page_chunks data page ! n)) a)
                \<or> fst (writePage s h data page) = BAD_INTEGRITY
                  \<and> (\<exists>k. 0 < k \<and> k \<le> 8
                       \<and> tail = aborted_events s (fst (page_chunks data page ! n))
                                  (snd (page_chunks data page ! n)) k))))"
proof -
  let ?h1 = "snd (isConnected s h)"
  let ?cs = "page_chunks data page"
  from writePage_is_commits [OF eeprom valid conn len]
  have wp: "writePage s h data page = commits s ?h1 ?cs"
    by (simp add: page_chunks_def)
  have completed: "\<exists>a0 a1 a2 a3.
            trace (snd (writePage s h data page)) =
              trace ?h1
              @ commit_events s (take 8 data) (word_of_int (page * 32 + 0)) a0
              @ commit_events s (take 8 (drop 8 data)) (word_of_int (page * 32 + 8)) a1
              @ commit_events s (take 8 (drop 16 data)) (word_of_int (page * 32 + 16)) a2
              @ commit_events s (take 8 (drop 24 data)) (word_of_int (page * 32 + 24)) a3"
    if z: "fst (writePage s h data page) = 0"
  proof -
    from z wp have "fst (commits s ?h1 ?cs) = 0" by simp
    from commits_done [OF this] obtain auths where
      au: "length auths = length ?cs"
        "trace (snd (commits s ?h1 ?cs)) = trace ?h1 @ chain_events s ?cs auths"
      by blast
    from au(1) obtain a0 a1 a2 a3 where "auths = [a0, a1, a2, a3]"
      by (auto simp: page_chunks_def length_Suc_conv)
    with au(2) wp show ?thesis
      by (auto simp: page_chunks_def)
  qed
  have stopped: "\<exists>n auths tail. n < 4 \<and> length auths = n
            \<and> trace (snd (writePage s h data page)) =
                trace ?h1 @ chain_events s (take n ?cs) auths @ tail
            \<and> (fst (writePage s h data page) = COPY_FAILURE
                  \<and> (\<exists>a. tail = commit_events s (fst (?cs ! n)) (snd (?cs ! n)) a)
                \<or> fst (writePage s h data page) = BAD_INTEGRITY
                  \<and> (\<exists>k. 0 < k \<and> k \<le> 8
                       \<and> tail = aborted_events s (fst (?cs ! n)) (snd (?cs ! n)) k))"
    if nz: "fst (writePage s h data page) \<noteq> 0"
  proof -
    from nz wp have "fst (commits s ?h1 ?cs) \<noteq> 0" by simp
    from commits_stopped [OF this] obtain n auths tail where
      st: "n < length ?cs" "length auths = n"
        "trace (snd (commits s ?h1 ?cs)) = trace ?h1 @ chain_events s (take n ?cs) auths @ tail"
        "fst (commits s ?h1 ?cs) = COPY_FAILURE
            \<and> (\<exists>a. tail = commit_events s (fst (?cs ! n)) (snd (?cs ! n)) a)
          \<or> fst (commits s ?h1 ?cs) = BAD_INTEGRITY
            \<and> (\<exists>k. 0 < k \<and> k \<le> length (fst (?cs ! n))
                 \<and> tail = aborted_events s (fst (?cs ! n)) (snd (?cs ! n)) k)"
      by blast
    from st(1) have n4: "n < 4" by (simp add: page_chunks_def)
    from n4 len have "length (fst (?cs ! n)) = 8"
      by (auto simp: page_chunks_def nth_Cons' less_Suc_eq numeral_eq_Suc)
    with st n4 wp show ?thesis by (simp only:) blast
  qed
  from writePage_is_commits [OF eeprom valid conn len] completed stopped
  show ?thesis by blast
qed

theorem writePage_eeprom_four_commits_witness:
  "\<not> isEPROMDevice (session_of ds2431_rom)
   \<and> isPageValid (session_of ds2431_rom) 1
   \<and> length sample_page = 32
   \<and> fst (isConnected (session_of ds2431_rom) (bus_with ds2431_rom accepting_answers))
   \<and> fst (writePage (session_of ds2431_rom) (bus_with ds2431_rom accepting_answers)
            sample_page 1) = 0
   \<and> trace (snd (writePage (session_of ds2431_rom) (bus_with ds2431_rom accepting_answers)
                   sample_page 1)) =
       trace (snd (isConnected (session_of ds2431_rom) (bus_with ds2431_rom accepting_answers)))
       @ commit_events (session_of ds2431_rom) (take 8 sample_page) 0x20 [0xA0, 0xA1, 0xA2]
       @ commit_events (session_of ds2431_rom) (take 8 (drop 8 sample_page)) 0x28
           [0xA0, 0xA1, 0xA2]
       @ commit_events (session_of ds2431_rom) (take 8 (drop 16 sample_page)) 0x30
           [0xA0, 0xA1, 0xA2]
       @ commit_events (session_of ds2431_rom) (take 8 (drop 24 sample_page)) 0x38
           [0xA0, 0xA1, 0xA2]
   \<and> take 39 (trace (snd (writePage (session_of ds2431_rom)
                            (bus_with ds2431_rom accepting_answers) sample_page 1))) =
       [Reset, ResetSearch, Search,
        Reset, Select ds2431_rom, Write 0x0F, Write 0x20, Write 0x00,
        Write 1, Write 2, Write 3, Write 4, Write 5, Write 6, Write 7, Write 8,
        Reset, Select ds2431_rom, Write 0xAA,
        Read, Read, Read, Read, Read, Read, Read, Read, Read, Read, Read,
        Reset, Select ds2431_rom, Write 0x55, Write 0xA0, Write 0xA1, WritePower 0xA2,
        Delay 10, Depower, Read]
   \<and> fst (isConnected (session_of ds2431_rom)
            (bus_with ds2431_rom (take 20 accepting_answers)))
   \<and> fst (writePage (session_of ds2431_rom)
            (bus_with ds2431_rom (take 20 accepting_answers)) sample_page 1) = BAD_INTEGRITY
   \<and> trace (snd (writePage (session_of ds2431_rom)
                   (bus_with ds2431_rom (take 20 accepting_answers)) sample_page 1)) =
       trace (snd (isConnected (session_of ds2431_rom)
                     (bus_with ds2431_rom (take 20 accepting_answers))))
       @ commit_events (session_of ds2431_rom) (take 8 sample_page) 0x20 [0xA0, 0xA1, 0xA2]
       @ aborted_events (session_of ds2431_rom) (take 8 (drop 8 sample_page)) 0x28 6"
proof -
  let ?s = "session_of ds2431_rom"
  let ?b = "bus_with ds2431_rom accepting_answers"
  let ?b' = "bus_with ds2431_rom (take 20 accepting_answers)"
  let ?cs = "[(take 8 sample_page, word_of_int (1 * 32 + 0)),
         (take 8 (drop 8 sample_page), word_of_int (1 * 32 + 8)),
         (take 8 (drop 16 sample_page), word_of_int (1 * 32 + 16)),
         (take 8 (drop 24 sample_page), word_of_int (1 * 32 + 24)) :: byte list \<times> uint]"
  have eeprom: "\<not> isEPROMDevice ?s"
    by code_simp
  have valid: "isPageValid ?s 1"
    by code_simp
  have len: "length sample_page = 32"
    by code_simp
  have conn: "fst (isConnected ?s ?b)"
    by code_simp
  have conn': "fst (isConnected ?s ?b')"
    by code_simp
  have run: "fst (commits ?s (snd (isConnected ?s ?b)) ?cs) = 0"
    "trace (snd (commits ?s (snd (isConnected ?s ?b)) ?cs)) =
       trace (snd (isConnected ?s ?b))
       @ commit_events ?s (take 8 sample_page) 0x20 [0xA0, 0xA1, 0xA2]
       @ commit_events ?s (take 8 (drop 8 sample_page)) 0x28 [0xA0, 0xA1, 0xA2]
       @ commit_events ?s (take 8 (drop 16 sample_page)) 0x30 [0xA0, 0xA1, 0xA2]
       @ commit_events ?s (take 8 (drop 24 sample_page)) 0x38 [0xA0, 0xA1, 0xA2]"
    "take 39 (trace (snd (commits ?s (snd (isConnected ?s ?b)) ?cs))) =
       [Reset, ResetSearch, Search,
        Reset, Select ds2431_rom, Write 0x0F, Write 0x20, Write 0x00,
        Write 1, Write 2, Write 3, Write 4, Write 5, Write 6, Write 7, Write 8,
        Reset, Select ds2431_rom, Write 0xAA,
        Read, Read, Read, Read, Read, Read, Read, Read, Read, Read, Read,
        Reset, Select ds2431_rom, Write 0x55, Write 0xA0, Write 0xA1, WritePower 0xA2,
        Delay 10, Depower, Read]"
    by (simp only: commits.simps split_beta, code_simp)+
  have run': "fst (commits ?s (snd (isConnected ?s ?b')) ?cs) = BAD_INTEGRITY"
    "trace (snd (commits ?s (snd (isConnected ?s ?b')) ?cs)) =
       trace (snd (isConnected ?s ?b'))
       @ commit_events ?s (take 8 sample_page) 0x20 [0xA0, 0xA1, 0xA2]
       @ aborted_events ?s (take 8 (drop 8 sample_page)) 0x28 6"
    by (simp only: commits.simps split_beta, code_simp)+
  note eq = writePage_eeprom_four_commits [OF eeprom valid conn len, THEN conjunct1]
  note eq' = writePage_eeprom_four_commits [OF eeprom valid conn' len, THEN conjunct1]
  from eq run have ok: "fst (writePage ?s ?b sample_page 1) = 0"
    "trace (snd (writePage ?s ?b sample_page 1)) =
       trace (snd (isConnected ?s ?b))
       @ commit_events ?s (take 8 sample_page) 0x20 [0xA0, 0xA1, 0xA2]
       @ commit_events ?s (take 8 (drop 8 sample_page)) 0x28 [0xA0, 0xA1, 0xA2]
       @ commit_events ?s (take 8 (drop 16 sample_page)) 0x30 [0xA0, 0xA1, 0xA2]
       @ commit_events ?s (take 8 (drop 24 sample_page)) 0x38 [0xA0, 0xA1, 0xA2]"
    "take 39 (trace (snd (writePage ?s ?b sample_page 1))) =
       [Reset, ResetSearch, Search,
        Reset, Select ds2431_rom, Write 0x0F, Write 0x20, Write 0x00,
        Write 1, Write 2, Write 3, Write 4, Write 5, Write 6, Write 7, Write 8,
        Reset, Select ds2431_rom, Write 0xAA,
        Read, Read, Read, Read, Read, Read, Read, Read, Read, Read, Read,
        Reset, Select ds2431_rom, Write 0x55, Write 0xA0, Write 0xA1, WritePower 0xA2,
        Delay 10, Depower, Read]"
    by (simp_all only:)
  from eq' run' have bad: "fst (writePage ?s ?b' sample_page 1) = BAD_INTEGRITY"
    "trace (snd (writePage ?s ?b' sample_page 1)) =
       trace (snd (isConnected ?s ?b'))
       @ commit_events ?s (take 8 sample_page) 0x20 [0xA0, 0xA1, 0xA2]
       @ aborted_events ?s (take 8 (drop 8 sample_page)) 0x28 6"
    by (simp_all only:)
  from eeprom valid conn conn' len ok bad show ?thesis
    by blast
qed

section \<open>Locking a page\<close>

lemma lock_mask_low: "0 \<le> page \<Longrightarrow> page < 8 \<Longrightarrow> lock_mask page = push_bit (nat page) 1"
  by (simp add: lock_mask_def shift_defined_def)

lemma lock_mask_high: "8 \<le> page \<Longrightarrow> page < 16 \<Longrightarrow> lock_mask page = 0"
proof -
  assume "8 \<le> page" and "page < 16"
  then have "8 \<le> nat page" by simp
  then have "(word_of_int (2 ^ nat page) :: byte) = 0"
    by (simp add: word_of_int_eq_0_iff)
  then show ?thesis by (simp add: lock_mask_def)
qed

text \<open>
  C3. The claim: for every valid page of an EPROM the last byte of the lock command has
  exactly the bit \<open>page\<close> set, the pages 8 to 63 of the DS2505 included. The byte keeps the
  low eight bits of \<^verbatim>\<open>1 << page\<close>: for the pages 8 to 15 it is \<open>0\<close> (\<open>lock_mask_high\<close>;
  from page 16 on the shift is undefined). On a
  DS2505 that answers the CRC of the command, \<^verbatim>\<open>lockPage\<close> of page 8 sends
  \<open>{0x55, 0x00, 0x00, 0x00}\<close> and returns \<open>0\<close>.
\<close>

theorem lockPage_page_8_sends_empty_mask:
  "isPageValid (session_of ds2505_rom) 8
   \<and> shift_defined 8
   \<and> lock_mask 8 = 0
   \<and> dallas_crc8 [0x55, 0x00, 0x00, 0x00] = 0x59
   \<and> fst (lockPage (session_of ds2505_rom) (bus_with ds2505_rom [0x59]) 8) = 0
   \<and> trace (snd (lockPage (session_of ds2505_rom) (bus_with ds2505_rom [0x59]) 8))
       = [Reset, ResetSearch, Search, Reset, Select ds2505_rom,
          Write 0x55, Write 0x00, Write 0x00, Write 0x00, Read, DelayMicroseconds 500]"
  by code_simp

lemma lockPage_eeprom_status:
  "\<not> isEPROMDevice s \<Longrightarrow> isPageValid s page \<Longrightarrow> fst (isConnected s h) \<Longrightarrow>
     fst (lockPage s h page) = 0"
  by (simp add: lockPage_def Let_def split_beta)

text \<open>
  C4. The claim: when the commit of the lock byte \<open>0x55\<close> fails, \<^verbatim>\<open>lockPage\<close> returns
  the status of the failure. The code drops what \<^verbatim>\<open>scratchWrite\<close> returns: on an
  EEPROM \<^verbatim>\<open>lockPage\<close> of a valid page of a connected device returns \<open>0\<close>
  (\<open>lockPage_eeprom_status\<close>). On a DS2431 whose scratchpad echoes \<open>0x00\<close> for the
  byte \<open>0x55\<close> the call of \<^verbatim>\<open>scratchWrite\<close> inside \<^verbatim>\<open>lockPage\<close> returns
  \<open>BAD_INTEGRITY\<close>, and on one that echoes the byte and then does not answer \<open>0xAA\<close>
  it returns \<open>COPY_FAILURE\<close>; \<^verbatim>\<open>lockPage\<close> returns \<open>0\<close> both times.
\<close>

theorem lockPage_drops_scratch_status:
  "isPageValid (session_of ds2431_rom) 0
   \<and> fst (scratchWrite (session_of ds2431_rom)
            (reset_select (session_of ds2431_rom)
               (snd (isConnected (session_of ds2431_rom)
                       (bus_with ds2431_rom [0x01, 0x02, 0x03, 0x00]))))
            [0x55] 1 128) = BAD_INTEGRITY
   \<and> fst (lockPage (session_of ds2431_rom) (bus_with ds2431_rom [0x01, 0x02, 0x03, 0x00]) 0)
       = 0
   \<and> fst (scratchWrite (session_of ds2431_rom)
            (reset_select (session_of ds2431_rom)
               (snd (isConnected (session_of ds2431_rom)
                       (bus_with ds2431_rom [0x01, 0x02, 0x03, 0x55, 0x00]))))
            [0x55] 1 128) = COPY_FAILURE
   \<and> fst (lockPage (session_of ds2431_rom)
            (bus_with ds2431_rom [0x01, 0x02, 0x03, 0x55, 0x00]) 0) = 0"
  by code_simp

end
